theory Spec2Isabelle
  imports Main
begin

section \<open>JavaScript values and strings\<close>

text \<open>
  The argument parser of \<^verbatim>\<open>bin/cmd.js\<close> (\<^verbatim>\<open>minimistPrettyParse\<close>, with its inner
  functions \<^verbatim>\<open>buildOptions\<close> and \<^verbatim>\<open>parseTemplates\<close>) works on plain JavaScript
  objects whose properties hold booleans, numbers, strings and arrays of these.

  A number only ever enters as \<^verbatim>\<open>Number(s)\<close> of a numeric lexeme \<open>s\<close> (or as a numeric
  literal of the schema), so \<open>VNum s\<close> keeps the lexeme and denotes the double it reads as.
  Two lexemes of the same double are different \<open>VNum\<close> values here; nothing below relies
  on two numbers being different. Strings are lists of 8-bit characters.
\<close>

datatype jsval = VUndef | VBool bool | VNum string | VStr string | VArr "jsval list"

text \<open>
  What a \<^verbatim>\<open>throw\<close> leaves the function with: \<open>Error msg\<close> is \<^verbatim>\<open>new Error(msg)\<close>, thrown by
  the code itself; \<open>TypeError\<close> is the engine's fault on reading a property of
  \<^verbatim>\<open>undefined\<close> or \<^verbatim>\<open>null\<close> or calling what is not a function. \<open>Unmodelled\<close> is no
  behaviour of the program: it marks the inputs on which the tokenizer builds nested
  objects (a flag key with a dot) or meets a member of \<^verbatim>\<open>Object.prototype\<close>, which this
  development does not cover.
\<close>

datatype jserr = TypeError | Error string | Unmodelled

definition sq :: string where
  "sq = [CHR 0x27]"

definition is_digit :: "char \<Rightarrow> bool" where
  "is_digit c = (c \<in> set ''0123456789'')"

definition is_lower :: "char \<Rightarrow> bool" where
  "is_lower c = (c \<in> set ''abcdefghijklmnopqrstuvwxyz'')"

definition is_upper :: "char \<Rightarrow> bool" where
  "is_upper c = (c \<in> set ''ABCDEFGHIJKLMNOPQRSTUVWXYZ'')"

definition is_letter :: "char \<Rightarrow> bool" where
  \<comment> \<open>the class \<^verbatim>\<open>[a-zA-Z]\<close>\<close>
  "is_letter c = (is_lower c \<or> is_upper c)"

definition is_word_char :: "char \<Rightarrow> bool" where
  \<comment> \<open>the class \<^verbatim>\<open>\w\<close>, that is \<^verbatim>\<open>[A-Za-z0-9_]\<close>\<close>
  "is_word_char c = (is_letter c \<or> is_digit c \<or> c = CHR ''_'')"

definition is_hex_digit :: "char \<Rightarrow> bool" where
  \<comment> \<open>the class \<^verbatim>\<open>[0-9a-f]\<close> under the flag \<^verbatim>\<open>i\<close>\<close>
  "is_hex_digit c = (is_digit c \<or> c \<in> set ''abcdefABCDEF'')"

definition is_line_end :: "char \<Rightarrow> bool" where
  \<comment> \<open>what \<^verbatim>\<open>.\<close> does not match, among 8-bit characters\<close>
  "is_line_end c = (c = CHR 0x0A \<or> c = CHR 0x0D)"

definition toUpperCase :: "char \<Rightarrow> char" where
  "toUpperCase c =
     (case map_of (zip ''abcdefghijklmnopqrstuvwxyz'' ''ABCDEFGHIJKLMNOPQRSTUVWXYZ'') c of
        Some u \<Rightarrow> u | None \<Rightarrow> c)"

definition starts_with :: "string \<Rightarrow> string \<Rightarrow> bool" where
  "starts_with p s = (take (length p) s = p)"

fun str_includes :: "string \<Rightarrow> string \<Rightarrow> bool" where
  \<comment> \<open>\<^verbatim>\<open>s.includes(p)\<close>, written \<open>str_includes p s\<close>\<close>
  "str_includes p [] = (p = [])"
| "str_includes p (c # cs) = (starts_with p (c # cs) \<or> str_includes p cs)"

fun replace_first :: "string \<Rightarrow> string \<Rightarrow> string" where
  \<comment> \<open>\<^verbatim>\<open>s.replace(p, '')\<close> for a string pattern: the first occurrence goes\<close>
  "replace_first p [] = []"
| "replace_first p (c # cs) =
     (if starts_with p (c # cs) then drop (length p) (c # cs) else c # replace_first p cs)"

fun split_on :: "char \<Rightarrow> string \<Rightarrow> string list" where
  \<comment> \<open>\<^verbatim>\<open>s.split(c)\<close> for a one-character separator\<close>
  "split_on c [] = [[]]"
| "split_on c (x # xs) =
     (if x = c then [] # split_on c xs
      else (case split_on c xs of [] \<Rightarrow> [[x]] | w # ws \<Rightarrow> (x # w) # ws))"

text \<open>
  \<^verbatim>\<open>key.replace(/[_-]([a-z])/g, (_, w) => w.toUpperCase())\<close>: from left to right, a
  \<^verbatim>\<open>_\<close> or \<^verbatim>\<open>-\<close> before a lower-case letter goes and the letter is capitalised.
\<close>

fun camelCase :: "string \<Rightarrow> string" where
  "camelCase (c # d # cs) =
     (if (c = CHR ''_'' \<or> c = CHR ''-'') \<and> is_lower d then toUpperCase d # camelCase cs
      else c # camelCase (d # cs))"
| "camelCase cs = cs"

text \<open>
  \<^verbatim>\<open>/^[a-zA-Z]+((-|_){1}[a-zA-Z]+)+$/\<close>, as the automaton of the expression: words of
  letters, two or more, with one \<^verbatim>\<open>-\<close> or \<^verbatim>\<open>_\<close> between neighbours.
\<close>

datatype hstate = FirstStart | FirstWord | NextStart | NextWord

fun hyphen_run :: "hstate \<Rightarrow> string \<Rightarrow> bool" where
  "hyphen_run q [] = (q = NextWord)"
| "hyphen_run q (c # cs) =
     (if is_letter c then
        hyphen_run (if q = FirstStart \<or> q = FirstWord then FirstWord else NextWord) cs
      else if (c = CHR ''-'' \<or> c = CHR ''_'') \<and> (q = FirstWord \<or> q = NextWord) then
        hyphen_run NextStart cs
      else False)"

definition isHyphenated :: "string \<Rightarrow> bool" where
  "isHyphenated s = hyphen_run FirstStart s"

subsection \<open>Truthiness, typeof, indexing\<close>

fun digits_value :: "nat \<Rightarrow> string \<Rightarrow> nat" where
  "digits_value acc [] = acc"
| "digits_value acc (c # cs) =
     digits_value (10 * acc + (of_char c - of_char (CHR ''0''))) cs"

definition strip_sign :: "string \<Rightarrow> string" where
  \<comment> \<open>\<^verbatim>\<open>[-+]?\<close>\<close>
  "strip_sign s =
     (case s of [] \<Rightarrow> [] | c # cs \<Rightarrow> if c = CHR ''-'' \<or> c = CHR ''+'' then cs else s)"

definition decimalParts :: "string \<Rightarrow> nat \<times> int" where
  \<comment> \<open>a decimal lexeme (sign, digits, fraction, exponent) as \<open>(m, e)\<close>: its magnitude is
      \<open>m * 10 ^ e\<close>\<close>
  "decimalParts s =
     (let m = strip_sign s;
          ip = takeWhile is_digit m;
          r1 = dropWhile is_digit m;
          fp = (case r1 of [] \<Rightarrow> [] | c # cs \<Rightarrow> if c = CHR ''.'' then takeWhile is_digit cs else []);
          r2 = (case r1 of [] \<Rightarrow> [] | c # cs \<Rightarrow> if c = CHR ''.'' then dropWhile is_digit cs else r1);
          ex = (case r2 of
                  [] \<Rightarrow> 0
                | e # x \<Rightarrow>
                    (case x of
                       [] \<Rightarrow> 0
                     | c # ds \<Rightarrow> if c = CHR ''-'' then - int (digits_value 0 ds)
                                else int (digits_value 0 (strip_sign x))))
      in (digits_value 0 (ip @ fp), ex - int (length fp)))"

definition numIsZero :: "string \<Rightarrow> bool" where
  \<comment> \<open>the lexeme reads as the double zero: a hexadecimal lexeme when its digits are all 0,
      a decimal lexeme when its magnitude is at most \<open>2 ^ -1075\<close>, half of the least
      positive double, which rounds to zero\<close>
  "numIsZero s =
     (if starts_with ''0x'' s \<or> starts_with ''0X'' s then \<forall>c \<in> set (drop 2 s). c = CHR ''0''
      else (case decimalParts s of
              (m, e) \<Rightarrow> m = 0 \<or> (e < 0 \<and> m * 2 ^ 1075 \<le> 10 ^ nat (- e))))"

fun truthy :: "jsval \<Rightarrow> bool" where
  "truthy VUndef = False"
| "truthy (VBool b) = b"
| "truthy (VNum s) = (\<not> numIsZero s)"
| "truthy (VStr s) = (s \<noteq> [])"
| "truthy (VArr xs) = True"

fun typeof :: "jsval \<Rightarrow> string" where
  "typeof VUndef = ''undefined''"
| "typeof (VBool b) = ''boolean''"
| "typeof (VNum s) = ''number''"
| "typeof (VStr s) = ''string''"
| "typeof (VArr xs) = ''object''"

fun js_length :: "jsval \<Rightarrow> int option" where
  \<comment> \<open>\<^verbatim>\<open>v.length\<close>; \<open>None\<close> is \<^verbatim>\<open>undefined\<close>, which compares false with every number\<close>
  "js_length (VArr xs) = Some (int (length xs))"
| "js_length (VStr s) = Some (int (length s))"
| "js_length v = None"

fun js_index :: "jsval \<Rightarrow> nat \<Rightarrow> jsval" where
  \<comment> \<open>\<^verbatim>\<open>v[i]\<close> for \<open>v\<close> other than \<^verbatim>\<open>undefined\<close>\<close>
  "js_index (VArr xs) i = (if i < length xs then xs ! i else VUndef)"
| "js_index (VStr s) i = (if i < length s then VStr [s ! i] else VUndef)"
| "js_index v i = VUndef"

fun js_slice :: "jsval \<Rightarrow> nat \<Rightarrow> jserr + jsval" where
  \<comment> \<open>\<^verbatim>\<open>v.slice(n)\<close>: arrays and strings have the method, nothing else has\<close>
  "js_slice (VArr xs) n = Inr (VArr (drop n xs))"
| "js_slice (VStr s) n = Inr (VStr (drop n s))"
| "js_slice v n = Inl TypeError"

subsection \<open>Objects\<close>

text \<open>
  An object whose keys are enumerated (\<^verbatim>\<open>Object.keys\<close>) is the list of its properties in
  the order of their creation; assigning to a key it has keeps the key's place.
  \<^verbatim>\<open>Object.keys\<close> lists the keys that are array indices first, in ascending order, then
  the others in the order of creation. Properties inherited from \<^verbatim>\<open>Object.prototype\<close>
  are not part of the model: see \<open>proto_names\<close>.
\<close>

type_synonym 'v jsobj = "(string \<times> 'v) list"

fun obj_set :: "'v jsobj \<Rightarrow> string \<Rightarrow> 'v \<Rightarrow> 'v jsobj" where
  "obj_set [] k v = [(k, v)]"
| "obj_set (p # ps) k v = (if fst p = k then (k, v) # ps else p # obj_set ps k v)"

definition obj_get :: "'v jsobj \<Rightarrow> string \<Rightarrow> 'v option" where
  "obj_get ob k = map_of ob k"

definition isArrayIndex :: "string \<Rightarrow> bool" where
  \<comment> \<open>the canonical decimal of an integer from 0 to 4294967294\<close>
  "isArrayIndex k =
     (k \<noteq> [] \<and> (\<forall>c \<in> set k. is_digit c) \<and> (k = ''0'' \<or> hd k \<noteq> CHR ''0'')
      \<and> length k \<le> 10 \<and> digits_value 0 k < 4294967295)"

definition obj_keys :: "'v jsobj \<Rightarrow> string list" where
  "obj_keys ob =
     (let ks = map fst ob
      in sort_key (digits_value 0) (filter isArrayIndex ks) @ filter (\<lambda>k. \<not> isArrayIndex k) ks)"

definition proto_names :: "string list" where
  \<comment> \<open>the members of \<^verbatim>\<open>Object.prototype\<close>, which every object answers for\<close>
  "proto_names =
     [''constructor'', ''__proto__'', ''hasOwnProperty'', ''isPrototypeOf'',
      ''propertyIsEnumerable'', ''toLocaleString'', ''toString'', ''valueOf'',
      ''__defineGetter__'', ''__defineSetter__'', ''__lookupGetter__'', ''__lookupSetter__'']"

definition plainKey :: "string \<Rightarrow> bool" where
  \<comment> \<open>a key the model covers: no path into a nested object, no inherited member\<close>
  "plainKey k = (CHR ''.'' \<notin> set k \<and> k \<notin> set proto_names)"


subsection \<open>Sequencing with failure\<close>

definition bind :: "jserr + 'a \<Rightarrow> ('a \<Rightarrow> jserr + 'b) \<Rightarrow> jserr + 'b" where
  "bind m f = (case m of Inl e \<Rightarrow> Inl e | Inr x \<Rightarrow> f x)"

fun forEach :: "'a list \<Rightarrow> ('a \<Rightarrow> 's \<Rightarrow> jserr + 's) \<Rightarrow> 's \<Rightarrow> jserr + 's" where
  \<comment> \<open>\<^verbatim>\<open>xs.forEach(f)\<close> for an \<open>f\<close> that updates a state and may throw\<close>
  "forEach [] f s = Inr s"
| "forEach (x # xs) f s = (case f x s of Inl e \<Rightarrow> Inl e | Inr s' \<Rightarrow> forEach xs f s')"

section \<open>The tokenizer: minimist\<close>

text \<open>
  \<^verbatim>\<open>minimistPrettyParse\<close> hands the argument list to the package \<^verbatim>\<open>minimist\<close>
  (\<^verbatim>\<open>require('minimist')\<close>), which is a dependency and no file of the repository. Its
  \<^verbatim>\<open>index.js\<close> (release 1.2.8) is embedded here as it is called from \<^verbatim>\<open>cmd.js\<close>:
  \<^verbatim>\<open>opts.alias\<close> maps a name to one string, \<^verbatim>\<open>opts.boolean\<close> and \<^verbatim>\<open>opts.string\<close> are arrays
  of strings, \<^verbatim>\<open>opts.default\<close> maps keys to values, and \<^verbatim>\<open>opts.unknown\<close>,
  \<^verbatim>\<open>opts.stopEarly\<close> and \<^verbatim>\<open>opts['--']\<close> are not given.
\<close>

record minimistOpts =
  alias_opt :: "string jsobj"
  boolean_opt :: "string list"
  string_opt :: "string list"
  default_opt :: "jsval jsobj"

record flags =
  bools :: "string list"
  strings :: "string list"
  aliases :: "(string list) jsobj"

text \<open>
  The result object \<^verbatim>\<open>argv\<close>. A key may be present with the value \<^verbatim>\<open>undefined\<close>
  (\<open>Some VUndef\<close>), which \<^verbatim>\<open>key in argv\<close> tells from an absent key (\<open>None\<close>).
\<close>

type_synonym argv = "string \<rightharpoonup> jsval"

definition js_get :: "argv \<Rightarrow> string \<Rightarrow> jsval" where
  \<comment> \<open>\<^verbatim>\<open>argv[key]\<close>\<close>
  "js_get st k = (case st k of None \<Rightarrow> VUndef | Some v \<Rightarrow> v)"

definition isHexNumber :: "string \<Rightarrow> bool" where
  \<comment> \<open>\<^verbatim>\<open>/^0x[0-9a-f]+$/i\<close>\<close>
  "isHexNumber s =
     (case s of
        z # x # ds \<Rightarrow> z = CHR ''0'' \<and> (x = CHR ''x'' \<or> x = CHR ''X'') \<and> ds \<noteq> []
                      \<and> (\<forall>c \<in> set ds. is_hex_digit c)
      | _ \<Rightarrow> False)"

definition isDecimalNumber :: "string \<Rightarrow> bool" where
  \<comment> \<open>\<^verbatim>\<open>/^[-+]?(?:\d+(?:\.\d*)?|\.\d+)(e[-+]?\d+)?$/\<close>\<close>
  "isDecimalNumber s =
     (let m = strip_sign s;
          r1 = dropWhile is_digit m;
          r2 = (if takeWhile is_digit m \<noteq> [] then
                  (case r1 of
                     [] \<Rightarrow> Some []
                   | c # cs \<Rightarrow> if c = CHR ''.'' then Some (dropWhile is_digit cs) else Some r1)
                else
                  (case r1 of
                     [] \<Rightarrow> None
                   | c # cs \<Rightarrow> if c = CHR ''.'' \<and> takeWhile is_digit cs \<noteq> []
                               then Some (dropWhile is_digit cs) else None))
      in case r2 of
           None \<Rightarrow> False
         | Some [] \<Rightarrow> True
         | Some (e # ex) \<Rightarrow>
             e = CHR ''e'' \<and> strip_sign ex \<noteq> [] \<and> (\<forall>c \<in> set (strip_sign ex). is_digit c))"

fun isNumber :: "jsval \<Rightarrow> bool" where
  "isNumber (VNum s) = True"
| "isNumber (VStr s) = (isHexNumber s \<or> isDecimalNumber s)"
| "isNumber v = False"

fun Number :: "jsval \<Rightarrow> jsval" where
  \<comment> \<open>\<^verbatim>\<open>Number(x)\<close> of an \<open>x\<close> that \<open>isNumber\<close> accepts\<close>
  "Number (VStr s) = VNum s"
| "Number v = v"

definition hasKey :: "argv \<Rightarrow> string \<Rightarrow> bool" where
  \<comment> \<open>\<^verbatim>\<open>key in argv\<close>\<close>
  "hasKey st k = (st k \<noteq> None)"

definition is_boolean :: "jsval \<Rightarrow> bool" where
  "is_boolean v = (case v of VBool b \<Rightarrow> True | _ \<Rightarrow> False)"

definition setKey :: "flags \<Rightarrow> string \<Rightarrow> jsval \<Rightarrow> argv \<Rightarrow> jserr + argv" where
  \<comment> \<open>\<^verbatim>\<open>setKey(argv, key.split('.'), value)\<close> where the path has one step\<close>
  "setKey F key value st =
     (if \<not> plainKey key then Inl Unmodelled
      else if js_get st key = VUndef \<or> key \<in> set (bools F) \<or> is_boolean (js_get st key)
        then Inr (st(key \<mapsto> value))
      else (case js_get st key of
              VArr xs \<Rightarrow> Inr (st(key \<mapsto> VArr (xs @ [value])))
            | v \<Rightarrow> Inr (st(key \<mapsto> VArr [v, value]))))"

definition aliases_of :: "flags \<Rightarrow> string \<Rightarrow> string list" where
  \<comment> \<open>\<^verbatim>\<open>aliases[key] || []\<close>\<close>
  "aliases_of F key = (case obj_get (aliases F) key of None \<Rightarrow> [] | Some xs \<Rightarrow> xs)"

definition setArg :: "flags \<Rightarrow> string \<Rightarrow> jsval \<Rightarrow> argv \<Rightarrow> jserr + argv" where
  "setArg F key val st =
     (case val of
        VArr xs \<Rightarrow> Inl Unmodelled
      | _ \<Rightarrow>
        (let value = (if key \<notin> set (strings F) \<and> isNumber val then Number val else val)
         in bind (setKey F key value st)
              (forEach (aliases_of F key) (\<lambda>x. setKey F x value))))"

definition aliasIsBoolean :: "flags \<Rightarrow> string \<Rightarrow> bool" where
  "aliasIsBoolean F key = (\<exists>x \<in> set (aliases_of F key). x \<in> set (bools F))"

definition takesValue :: "flags \<Rightarrow> string \<Rightarrow> bool" where
  \<comment> \<open>\<^verbatim>\<open>!flags.bools[key] && (aliases[key] ? !aliasIsBoolean(key) : true)\<close>\<close>
  "takesValue F key =
     (key \<notin> set (bools F)
      \<and> (case obj_get (aliases F) key of None \<Rightarrow> True | Some xs \<Rightarrow> \<not> aliasIsBoolean F key))"

definition bareValue :: "flags \<Rightarrow> string \<Rightarrow> jsval" where
  \<comment> \<open>\<^verbatim>\<open>flags.strings[key] ? '' : true\<close>\<close>
  "bareValue F key = (if key \<in> set (strings F) then VStr [] else VBool True)"

subsection \<open>The tests on an argument\<close>

definition isLongEq :: "string \<Rightarrow> bool" where
  \<comment> \<open>\<^verbatim>\<open>/^--.+=/\<close>: after the dashes, an = with a character before it and no line end
      up to it\<close>
  "isLongEq a =
     (starts_with ''--'' a \<and> CHR ''='' \<in> set (tl (takeWhile (\<lambda>c. \<not> is_line_end c) (drop 2 a))))"

definition matchLongEq :: "string \<Rightarrow> (string \<times> string) option" where
  \<comment> \<open>\<^verbatim>\<open>arg.match(/^--([^=]+)=([\s\S]*)$/)\<close>: the groups, \<open>None\<close> for \<^verbatim>\<open>null\<close>\<close>
  "matchLongEq a =
     (let k = takeWhile (\<lambda>c. c \<noteq> CHR ''='') (drop 2 a);
          r = dropWhile (\<lambda>c. c \<noteq> CHR ''='') (drop 2 a)
      in if starts_with ''--'' a \<and> k \<noteq> [] \<and> r \<noteq> [] then Some (k, tl r) else None)"

definition isLongNo :: "string \<Rightarrow> bool" where
  \<comment> \<open>\<^verbatim>\<open>/^--no-.+/\<close>\<close>
  "isLongNo a =
     (starts_with ''--no-'' a \<and> (case drop 5 a of [] \<Rightarrow> False | c # cs \<Rightarrow> \<not> is_line_end c))"

definition isLong :: "string \<Rightarrow> bool" where
  \<comment> \<open>\<^verbatim>\<open>/^--.+/\<close>\<close>
  "isLong a =
     (starts_with ''--'' a \<and> (case drop 2 a of [] \<Rightarrow> False | c # cs \<Rightarrow> \<not> is_line_end c))"

definition groupOf :: "nat \<Rightarrow> string \<Rightarrow> string" where
  \<comment> \<open>the group \<^verbatim>\<open>(.+)\<close> of \<^verbatim>\<open>/^--no-(.+)/\<close> and \<^verbatim>\<open>/^--(.+)/\<close>, after \<open>n\<close> characters\<close>
  "groupOf n a = takeWhile (\<lambda>c. \<not> is_line_end c) (drop n a)"

definition isShort :: "string \<Rightarrow> bool" where
  \<comment> \<open>\<^verbatim>\<open>/^-[^-]+/\<close>\<close>
  "isShort a = (case a of d # c # cs \<Rightarrow> d = CHR ''-'' \<and> c \<noteq> CHR ''-'' | _ \<Rightarrow> False)"

definition isFlagLike :: "string \<Rightarrow> bool" where
  \<comment> \<open>\<^verbatim>\<open>/^(-|--)[^-]/\<close>\<close>
  "isFlagLike a =
     (case a of
        d # c # cs \<Rightarrow>
          d = CHR ''-'' \<and> (c \<noteq> CHR ''-'' \<or> (case cs of [] \<Rightarrow> False | e # es \<Rightarrow> e \<noteq> CHR ''-''))
      | _ \<Rightarrow> False)"

definition isTrueFalse :: "string \<Rightarrow> bool" where
  \<comment> \<open>\<^verbatim>\<open>/^(true|false)$/\<close>\<close>
  "isTrueFalse a = (a = ''true'' \<or> a = ''false'')"

definition endsNumeric :: "string \<Rightarrow> bool" where
  \<comment> \<open>\<^verbatim>\<open>/-?\d+(\.\d*)?(e-?\d+)?$/\<close>, which is not anchored on the left: the text ends in
      a digit, or in a digit and a dot\<close>
  "endsNumeric s =
     (case rev s of
        [] \<Rightarrow> False
      | c # cs \<Rightarrow> is_digit c \<or> (c = CHR ''.'' \<and> (case cs of [] \<Rightarrow> False | d # ds \<Rightarrow> is_digit d)))"


subsection \<open>One argument at a time\<close>

definition pushArg :: "jsval \<Rightarrow> argv \<Rightarrow> jserr + argv" where
  \<comment> \<open>\<^verbatim>\<open>argv._.push(v)\<close>\<close>
  "pushArg v st =
     (case js_get st ''_'' of
        VArr xs \<Rightarrow> Inr (st(''_'' \<mapsto> VArr (xs @ [v])))
      | _ \<Rightarrow> Inl TypeError)"

text \<open>
  The loop over \<^verbatim>\<open>letters = arg.slice(1, -1).split('')\<close>. Its argument is
  \<^verbatim>\<open>arg.slice(j + 1)\<close>: the letter at \<open>j\<close>, then \<^verbatim>\<open>next = arg.slice(j + 2)\<close>, whose
  last character is no letter of the loop. The result tells whether the loop was
  \<^verbatim>\<open>broken\<close>.
\<close>

fun shortLetters :: "flags \<Rightarrow> string \<Rightarrow> argv \<Rightarrow> jserr + (argv \<times> bool)" where
  "shortLetters F (l # n # rest) st =
     (if n # rest = ''-'' then
        (case setArg F [l] (VStr (n # rest)) st of
           Inl e \<Rightarrow> Inl e | Inr s \<Rightarrow> shortLetters F (n # rest) s)
      else if is_letter l \<and> n = CHR ''='' then
        (case setArg F [l] (VStr rest) st of Inl e \<Rightarrow> Inl e | Inr s \<Rightarrow> Inr (s, True))
      else if is_letter l \<and> endsNumeric (n # rest) then
        (case setArg F [l] (VStr (n # rest)) st of Inl e \<Rightarrow> Inl e | Inr s \<Rightarrow> Inr (s, True))
      else if rest \<noteq> [] \<and> \<not> is_word_char n then
        (case setArg F [l] (VStr (n # rest)) st of Inl e \<Rightarrow> Inl e | Inr s \<Rightarrow> Inr (s, True))
      else
        (case setArg F [l] (bareValue F [l]) st of
           Inl e \<Rightarrow> Inl e | Inr s \<Rightarrow> shortLetters F (n # rest) s))"
| "shortLetters F w st = Inr (st, False)"

text \<open>
  The body of the loop over \<^verbatim>\<open>args\<close>, for \<^verbatim>\<open>arg = args[i]\<close> and \<^verbatim>\<open>args[i + 1]\<close>
  (\<open>None\<close> past the end). The result tells whether \<^verbatim>\<open>i\<close> was stepped over the next
  argument.
\<close>

definition mstep :: "flags \<Rightarrow> string \<Rightarrow> string option \<Rightarrow> argv \<Rightarrow> jserr + (argv \<times> bool)" where
  "mstep F arg nxt st =
     (if isLongEq arg then
        (case matchLongEq arg of
           None \<Rightarrow> Inl TypeError
         | Some (key, value) \<Rightarrow>
             bind (setArg F key
                     (if key \<in> set (bools F) then VBool (value \<noteq> ''false'') else VStr value) st)
               (\<lambda>s. Inr (s, False)))
      else if isLongNo arg then
        bind (setArg F (groupOf 5 arg) (VBool False) st) (\<lambda>s. Inr (s, False))
      else if isLong arg then
        (let key = groupOf 2 arg
         in case nxt of
              None \<Rightarrow> bind (setArg F key (bareValue F key) st) (\<lambda>s. Inr (s, False))
            | Some n \<Rightarrow>
                if \<not> isFlagLike n \<and> takesValue F key then
                  bind (setArg F key (VStr n) st) (\<lambda>s. Inr (s, True))
                else if isTrueFalse n then
                  bind (setArg F key (VBool (n = ''true'')) st) (\<lambda>s. Inr (s, True))
                else bind (setArg F key (bareValue F key) st) (\<lambda>s. Inr (s, False)))
      else if isShort arg then
        bind (shortLetters F (tl arg) st)
          (\<lambda>(s, broken).
             let key = [last arg]
             in if \<not> broken \<and> key \<noteq> ''-'' then
                  (case nxt of
                     None \<Rightarrow> bind (setArg F key (bareValue F key) s) (\<lambda>s'. Inr (s', False))
                   | Some n \<Rightarrow>
                       if n \<noteq> [] \<and> \<not> isFlagLike n \<and> takesValue F key then
                         bind (setArg F key (VStr n) s) (\<lambda>s'. Inr (s', True))
                       else if n \<noteq> [] \<and> isTrueFalse n then
                         bind (setArg F key (VBool (n = ''true'')) s) (\<lambda>s'. Inr (s', True))
                       else bind (setArg F key (bareValue F key) s) (\<lambda>s'. Inr (s', False)))
                else Inr (s, False))
      else
        bind (pushArg (if ''_'' \<in> set (strings F) \<or> \<not> isNumber (VStr arg)
                       then VStr arg else Number (VStr arg)) st)
          (\<lambda>s. Inr (s, False)))"

function mloop :: "flags \<Rightarrow> string list \<Rightarrow> argv \<Rightarrow> jserr + argv" where
  "mloop F [] st = Inr st"
| "mloop F (arg # rest) st =
     (case mstep F arg (case rest of [] \<Rightarrow> None | n # ns \<Rightarrow> Some n) st of
        Inl e \<Rightarrow> Inl e
      | Inr (s, stepped) \<Rightarrow> mloop F (if stepped then tl rest else rest) s)"
  by pat_completeness auto
termination
  by (relation "measure (\<lambda>(F, args, st). length args)") auto

subsection \<open>Flags, defaults and the whole call\<close>

definition obj_entries :: "'v jsobj \<Rightarrow> (string \<times> 'v) list" where
  \<comment> \<open>the keys in the order of \<^verbatim>\<open>Object.keys\<close>, each with its value\<close>
  "obj_entries ob =
     concat (map (\<lambda>k. case obj_get ob k of None \<Rightarrow> [] | Some v \<Rightarrow> [(k, v)]) (obj_keys ob))"

definition addAlias :: "string \<times> string \<Rightarrow> (string list) jsobj \<Rightarrow> (string list) jsobj" where
  \<comment> \<open>\<^verbatim>\<open>aliases[key] = [].concat(opts.alias[key])\<close>, then for its one member \<open>x\<close>
      \<^verbatim>\<open>aliases[x] = [key].concat(aliases[key].filter(y => x !== y))\<close>\<close>
  "addAlias e al =
     (case e of (key, x) \<Rightarrow> obj_set (obj_set al key [x]) x (key # filter (\<lambda>y. x \<noteq> y) [x]))"

definition makeAliases :: "string jsobj \<Rightarrow> (string list) jsobj" where
  "makeAliases al = fold addAlias (obj_entries al) []"

definition makeBools :: "string list \<Rightarrow> string list" where
  \<comment> \<open>\<^verbatim>\<open>Object.keys(flags.bools)\<close> after \<^verbatim>\<open>flags.bools[key] = true\<close> for every non-empty
      key of \<^verbatim>\<open>opts.boolean\<close>\<close>
  "makeBools bs = obj_keys (fold (\<lambda>k ob. obj_set ob k True) (filter (\<lambda>k. k \<noteq> []) bs) [])"

definition makeStrings :: "(string list) jsobj \<Rightarrow> string list \<Rightarrow> string list" where
  "makeStrings al ss =
     concat (map (\<lambda>key. key # (case obj_get al key of None \<Rightarrow> [] | Some xs \<Rightarrow> xs))
               (filter (\<lambda>k. k \<noteq> []) ss))"

definition makeFlags :: "minimistOpts \<Rightarrow> flags" where
  "makeFlags opts =
     \<lparr> bools = makeBools (boolean_opt opts),
       strings = makeStrings (makeAliases (alias_opt opts)) (string_opt opts),
       aliases = makeAliases (alias_opt opts) \<rparr>"

definition initBool :: "flags \<Rightarrow> jsval jsobj \<Rightarrow> string \<Rightarrow> argv \<Rightarrow> jserr + argv" where
  \<comment> \<open>\<^verbatim>\<open>setArg(key, defaults[key] === undefined ? false : defaults[key])\<close>\<close>
  "initBool F defaults key st =
     setArg F key
       (case obj_get defaults key of
          None \<Rightarrow> VBool False | Some d \<Rightarrow> if d = VUndef then VBool False else d) st"

definition fillDefault :: "flags \<Rightarrow> string \<times> jsval \<Rightarrow> argv \<Rightarrow> jserr + argv" where
  "fillDefault F e st =
     (case e of (k, d) \<Rightarrow>
        if \<not> hasKey st k
        then bind (setKey F k d st) (forEach (aliases_of F k) (\<lambda>x. setKey F x d))
        else Inr st)"

definition minimist :: "string list \<Rightarrow> minimistOpts \<Rightarrow> jserr + argv" where
  "minimist args opts =
     (let F = makeFlags opts;
          defaults = default_opt opts;
          argv0 = [''_'' \<mapsto> VArr []];
          notFlags = (if ''--'' \<in> set args then tl (dropWhile (\<lambda>a. a \<noteq> ''--'') args) else []);
          args' = takeWhile (\<lambda>a. a \<noteq> ''--'') args
      in bind (forEach (bools F) (initBool F defaults) argv0)
           (\<lambda>st1. bind (mloop F args' st1)
              (\<lambda>st2. bind (forEach (obj_entries defaults) (fillDefault F) st2)
                 (forEach notFlags (\<lambda>k. pushArg (VStr k))))))"


section \<open>The parser of \<^verbatim>\<open>bin/cmd.js\<close>\<close>

text \<open>
  The schema: \<^verbatim>\<open>options\<close> maps an option key to an object of which the parser reads
  \<^verbatim>\<open>alias\<close>, \<^verbatim>\<open>type\<close> and \<^verbatim>\<open>default\<close>; \<^verbatim>\<open>commands\<close> maps a command name (\<^verbatim>\<open>'*'\<close> for the
  default command) to an object of which it reads \<^verbatim>\<open>template\<close>. Both are given as the
  list \<^verbatim>\<open>Object.entries\<close> returns. A property that is not there is \<open>None\<close>.
\<close>

record optionValue =
  oalias :: "string option"
  otype :: "string option"
  odefault :: "jsval option"

record commandValue =
  template :: "string option"

definition truthyString :: "string option \<Rightarrow> bool" where
  "truthyString x = (case x of None \<Rightarrow> False | Some s \<Rightarrow> s \<noteq> [])"

definition truthyDefault :: "optionValue \<Rightarrow> jsval option" where
  \<comment> \<open>\<^verbatim>\<open>optionValue.default\<close> where it is truthy\<close>
  "truthyDefault v = (case odefault v of None \<Rightarrow> None | Some d \<Rightarrow> if truthy d then Some d else None)"

subsection \<open>buildOptions\<close>

definition emptyOpts :: minimistOpts where
  "emptyOpts = \<lparr> alias_opt = [], boolean_opt = [], string_opt = [], default_opt = [] \<rparr>"

definition buildOption ::
  "string \<times> optionValue \<Rightarrow> minimistOpts \<times> string list \<Rightarrow> minimistOpts \<times> string list" where
  \<comment> \<open>the body of the loop of \<^verbatim>\<open>buildOptions\<close>; the second component is
      \<^verbatim>\<open>anyTypeOptions\<close>\<close>
  "buildOption e acc =
     (case e of (optionKey, optionValue) \<Rightarrow>
      case acc of (m0, anyTypeOptions) \<Rightarrow>
        let m1 = (if truthyString (oalias optionValue)
                  then (case oalias optionValue of
                          None \<Rightarrow> m0
                        | Some a \<Rightarrow> m0\<lparr>alias_opt := obj_set (alias_opt m0) a optionKey\<rparr>)
                  else m0);
            m2 = (case truthyDefault optionValue of
                    None \<Rightarrow> m1
                  | Some d \<Rightarrow> m1\<lparr>default_opt := obj_set (default_opt m1) optionKey d\<rparr>);
            m3 = (if str_includes ''no-'' optionKey
                  then m2\<lparr>default_opt :=
                           obj_set (default_opt m2) (replace_first ''no-'' optionKey) (VBool True)\<rparr>
                  else m2);
            m4 = (if isHyphenated optionKey
                  then m3\<lparr>alias_opt := obj_set (alias_opt m3) (camelCase optionKey) optionKey\<rparr>
                  else m3)
        in if truthyString (otype optionValue) \<or> truthyDefault optionValue \<noteq> None then
             (let type = (case truthyDefault optionValue of
                            Some d \<Rightarrow> typeof d
                          | None \<Rightarrow> (case otype optionValue of None \<Rightarrow> [] | Some t \<Rightarrow> t))
              in if type = ''boolean'' then
                   (m4\<lparr>boolean_opt := boolean_opt m4 @ [optionKey]\<rparr>, anyTypeOptions)
                 else
                   (m4\<lparr>string_opt := string_opt m4 @ [optionKey]\<rparr>,
                    if type = ''any'' then anyTypeOptions @ [optionKey] else anyTypeOptions))
           else (m4\<lparr>boolean_opt := boolean_opt m4 @ [optionKey]\<rparr>, anyTypeOptions))"

definition buildOptions :: "optionValue jsobj \<Rightarrow> minimistOpts \<times> string list" where
  "buildOptions options = fold buildOption options (emptyOpts, [])"

subsection \<open>The post-processing of the either-typed options\<close>

definition coerceAny :: "string \<Rightarrow> argv \<Rightarrow> argv" where
  \<comment> \<open>\<^verbatim>\<open>result[key] = (result[key] === undefined ? false : result[key] === '' ? true : result[key])\<close>\<close>
  "coerceAny key result =
     result(key \<mapsto>
       (if js_get result key = VUndef then VBool False
        else if js_get result key = VStr [] then VBool True
        else js_get result key))"

definition normalizeOptions :: "string list \<Rightarrow> argv \<Rightarrow> argv" where
  \<comment> \<open>\<^verbatim>\<open>anyTypeOptions.forEach(...)\<close>\<close>
  "normalizeOptions anyTypeOptions result = fold coerceAny anyTypeOptions result"

subsection \<open>parseTemplates\<close>

definition is_token_char :: "char \<Rightarrow> bool" where
  \<comment> \<open>the class \<^verbatim>\<open>[\w+-]\<close>\<close>
  "is_token_char c = (is_word_char c \<or> c = CHR ''+'' \<or> c = CHR ''-'')"

definition is_name_char :: "char \<Rightarrow> bool" where
  \<comment> \<open>the class \<^verbatim>\<open>[\w-]\<close>\<close>
  "is_name_char c = (is_word_char c \<or> c = CHR ''-'')"

definition lookahead :: "char \<Rightarrow> string \<Rightarrow> bool" where
  \<comment> \<open>\<^verbatim>\<open>(?=.+>)\<close> and \<^verbatim>\<open>(?=.+\])\<close>: the closing character comes after one character or
      more, with no line end before it\<close>
  "lookahead c r = (c \<in> set (tl (takeWhile (\<lambda>x. \<not> is_line_end x) r)))"

definition argumentMatch :: "string \<Rightarrow> bool" where
  \<comment> \<open>\<^verbatim>\<open>/^(<(?=.+>)|\[(?=.+\]))([\w+-]+(\.\.\.)?)[>\]]$/g\<close> matches the token (then the one
      match is the whole token)\<close>
  "argumentMatch s =
     (case s of
        [] \<Rightarrow> False
      | b # r \<Rightarrow>
          ((b = CHR ''<'' \<and> lookahead (CHR ''>'') r) \<or> (b = CHR ''['' \<and> lookahead (CHR '']'') r))
          \<and> takeWhile is_token_char r \<noteq> []
          \<and> dropWhile is_token_char r \<in> set [''>'', '']'', ''...>'', ''...]''])"

definition isArrayArgument :: "string \<Rightarrow> bool" where
  \<comment> \<open>\<^verbatim>\<open>!!argument[0].match(/\.\.\./g)\<close>\<close>
  "isArrayArgument s = str_includes ''...'' s"

definition isRequiredArgument :: "string \<Rightarrow> bool" where
  \<comment> \<open>\<^verbatim>\<open>!!argument[0].match(/^<.+>$/g)\<close>\<close>
  "isRequiredArgument s =
     (case s of
        [] \<Rightarrow> False
      | b # r \<Rightarrow> b = CHR ''<'' \<and> 2 \<le> length r \<and> last r = CHR ''>''
                 \<and> (\<forall>c \<in> set (butlast r). \<not> is_line_end c))"

definition argumentNameOf :: "string \<Rightarrow> string option" where
  \<comment> \<open>\<^verbatim>\<open>argument[0].match(/[\w-]+/g)\<close>: its first match, \<open>None\<close> when it is \<^verbatim>\<open>null\<close>\<close>
  "argumentNameOf s =
     (let n = takeWhile is_name_char (dropWhile (\<lambda>c. \<not> is_name_char c) s)
      in if n = [] then None else Some n)"

definition mirror :: "string \<Rightarrow> argv \<Rightarrow> argv" where
  \<comment> \<open>the camelCase copy of a hyphenated name:
      \<^verbatim>\<open>result[argumentName.replace(...)] = result[argumentName]\<close>\<close>
  "mirror name st =
     (if isHyphenated name then st(camelCase name \<mapsto> js_get st name) else st)"

definition bindArgument ::
  "string \<Rightarrow> string \<Rightarrow> bool \<Rightarrow> bool \<Rightarrow> bool \<Rightarrow> nat \<Rightarrow> argv \<Rightarrow> jserr + argv" where
  \<comment> \<open>the two binding branches of the loop, for the token at \<open>index\<close>; \<open>at\<close> is
      \<^verbatim>\<open>index + preset\<close> and \<open>isLast\<close> is \<^verbatim>\<open>index === template.length - 1\<close>\<close>
  "bindArgument command name isArray required isLast at st =
     (if js_get st ''_'' = VUndef then Inl TypeError
      else if isArray then
        (case js_slice (js_get st ''_'') at of
           Inl e \<Rightarrow> Inl e
         | Inr sl \<Rightarrow>
             if (case js_length sl of None \<Rightarrow> False | Some n \<Rightarrow> 0 < n) then Inr (st(name \<mapsto> sl))
             else if required then
               Inl (Error (sq @ name @ sq @ '' is required for '' @ sq @ command @ sq @ '' command''))
             else Inr st)
      else if isLast \<and> (case js_length (js_get st ''_'') of
                           None \<Rightarrow> False | Some n \<Rightarrow> int at < n - 1) then
        Inl (Error (''Too many arguments were given to '' @ sq @ command @ sq @ '' command''))
      else if truthy (js_index (js_get st ''_'') at) then
        Inr (st(name \<mapsto> js_index (js_get st ''_'') at))
      else if required then
        Inl (Error (sq @ name @ sq @ '' argument is required for '' @ sq @ command @ sq
                    @ '' command''))
      else Inr st)"

fun templateLoop ::
  "string \<Rightarrow> nat \<Rightarrow> nat \<Rightarrow> nat \<Rightarrow> string list \<Rightarrow> bool \<Rightarrow> argv \<Rightarrow> jserr + argv" where
  \<comment> \<open>the \<^verbatim>\<open>for\<close> loop from \<open>index\<close> on: \<open>len\<close> is \<^verbatim>\<open>template.length\<close>, the list holds
      \<^verbatim>\<open>template[index]\<close> and what follows it\<close>
  "templateLoop command preset len index [] previousIsOptionalArg st = Inr st"
| "templateLoop command preset len index (tok # toks) previousIsOptionalArg st =
     (if \<not> argumentMatch tok then Inl (Error (''Invalid argument: '' @ sq @ tok @ sq))
      else
        (case argumentNameOf tok of
           None \<Rightarrow> Inl TypeError
         | Some name \<Rightarrow>
             if (isArrayArgument tok \<and> index + 1 \<noteq> len)
                \<or> (previousIsOptionalArg \<and> isRequiredArgument tok) then
               Inl (Error (''Invalid argument template for '' @ sq @ command @ sq @ '' command''))
             else
               (case bindArgument command name (isArrayArgument tok) (isRequiredArgument tok)
                       (index + 1 = len) (index + preset) st of
                  Inl e \<Rightarrow> Inl e
                | Inr st' \<Rightarrow>
                    templateLoop command preset len (index + 1) toks
                      (previousIsOptionalArg \<or> \<not> isRequiredArgument tok) (mirror name st'))))"

definition templateOf :: "commandValue jsobj \<Rightarrow> string \<Rightarrow> jserr + string list" where
  \<comment> \<open>\<^verbatim>\<open>t.includes(' ') ? commands[commands].template.split(' ') : [t]\<close>: the key
      \<^verbatim>\<open>commands\<close> of the first branch is the object itself, which reads as the
      property name \<^verbatim>\<open>[object Object]\<close>\<close>
  "templateOf commands t =
     (if str_includes '' '' t then
        (case obj_get commands ''[object Object]'' of
           None \<Rightarrow> Inl TypeError
         | Some c \<Rightarrow> (case template c of None \<Rightarrow> Inl TypeError | Some t' \<Rightarrow> Inr (split_on CHR '' '' t')))
      else Inr [t])"

definition parseTemplates :: "commandValue jsobj \<Rightarrow> argv \<Rightarrow> jserr + argv" where
  "parseTemplates commands result =
     (if js_get result ''_'' = VUndef then Inl TypeError
      else
        (let isDefault = (case js_index (js_get result ''_'') 0 of
                            VStr s \<Rightarrow> s \<notin> set (obj_keys commands) | _ \<Rightarrow> True);
             command = (case js_index (js_get result ''_'') 0 of
                          VStr s \<Rightarrow> if isDefault then ''*'' else s | _ \<Rightarrow> ''*'')
         in case obj_get commands command of
              None \<Rightarrow> Inl TypeError
            | Some c \<Rightarrow>
                if truthyString (template c) then
                  (case template c of
                     None \<Rightarrow> Inr result
                   | Some t \<Rightarrow>
                       (case templateOf commands t of
                          Inl e \<Rightarrow> Inl e
                        | Inr tmpl \<Rightarrow>
                            templateLoop command (if isDefault then 0 else 1) (length tmpl) 0
                              tmpl False result))
                else if (case js_length (js_get result ''_'') of
                           None \<Rightarrow> False
                         | Some n \<Rightarrow> (1 < n \<and> \<not> isDefault) \<or> (0 < n \<and> isDefault)) then
                  Inl (Error ''Was not expecting arguments'')
                else Inr result))"

subsection \<open>minimistPrettyParse\<close>

definition minimistPrettyParse ::
  "string list \<Rightarrow> optionValue jsobj option \<Rightarrow> commandValue jsobj option \<Rightarrow> jserr + argv" where
  "minimistPrettyParse argv options commands =
     (let built = (case options of None \<Rightarrow> (emptyOpts, []) | Some os \<Rightarrow> buildOptions os)
      in bind (minimist argv (fst built))
           (\<lambda>result.
              case commands of
                None \<Rightarrow> Inr (normalizeOptions (snd built) result)
              | Some cs \<Rightarrow> parseTemplates cs (normalizeOptions (snd built) result)))"


subsection \<open>The schema of the tool\<close>

definition opt :: "string option \<Rightarrow> string option \<Rightarrow> jsval option \<Rightarrow> optionValue" where
  "opt a t d = \<lparr> oalias = a, otype = t, odefault = d \<rparr>"

definition options_streaming :: "optionValue jsobj" where
  "options_streaming =
     [(''airplay'', opt None None None),
      (''chromecast'', opt None (Some ''any'') None),
      (''dlna'', opt None None None),
      (''mplayer'', opt None None None),
      (''mpv'', opt None None None),
      (''omx'', opt None (Some ''any'') None),
      (''vlc'', opt None None None),
      (''iina'', opt None None None),
      (''xbmc'', opt None None None),
      (''stdout'', opt None None None)]"

definition options_simple :: "optionValue jsobj" where
  "options_simple =
     [(''help'', opt (Some ''h'') None None),
      (''version'', opt (Some ''v'') None None),
      (''out'', opt (Some ''o'') (Some ''string'') None),
      (''select'', opt (Some ''s'') (Some ''string'') None),
      (''subtitles'', opt (Some ''t'') (Some ''string'') None)]"

definition options_advanced :: "optionValue jsobj" where
  "options_advanced =
     [(''port'', opt (Some ''p'') None (Some (VNum ''8000''))),
      (''blocklist'', opt (Some ''b'') (Some ''string'') None),
      (''announce'', opt (Some ''a'') (Some ''string'') None),
      (''quiet'', opt (Some ''q'') None None),
      (''pip'', opt None None None),
      (''verbose'', opt None None None),
      (''player-args'', opt None (Some ''string'') None),
      (''torrent-port'', opt None (Some ''number'') None),
      (''dht-port'', opt None (Some ''number'') None),
      (''not-on-top'', opt None None None),
      (''keep-seeding'', opt None None None),
      (''no-quit'', opt None None None),
      (''on-done'', opt None (Some ''string'') None),
      (''on-exit'', opt None (Some ''string'') None)]"

definition tool_options :: "optionValue jsobj" where
  \<comment> \<open>\<^verbatim>\<open>Object.assign({}, options.streaming, options.simple, options.advanced)\<close>\<close>
  "tool_options = options_streaming @ options_simple @ options_advanced"

definition cmd :: "string option \<Rightarrow> commandValue" where
  "cmd t = \<lparr> template = t \<rparr>"



subsection \<open>Reading an outcome\<close>

definition thrown :: "jserr + 'a \<Rightarrow> jserr option" where
  "thrown r = (case r of Inl e \<Rightarrow> Some e | Inr x \<Rightarrow> None)"

definition field :: "jserr + argv \<Rightarrow> string \<Rightarrow> jsval option" where
  \<comment> \<open>a property of the result, \<open>None\<close> when there is no result or no such property\<close>
  "field r k = (case r of Inl e \<Rightarrow> None | Inr m \<Rightarrow> m k)"

definition coerce :: "jsval \<Rightarrow> jsval" where
  \<comment> \<open>the right-hand side of the assignment in \<open>coerceAny\<close>\<close>
  "coerce v = (if v = VUndef then VBool False else if v = VStr [] then VBool True else v)"

section \<open>What the schema hands to the tokenizer\<close>

text \<open>
  The tables \<^verbatim>\<open>buildOptions\<close> fills are sequences of assignments, one group per option
  in the order of the schema. The definitions of this section name these assignments,
  for the statements below; the lemmas \<open>buildOptions_alias\<close>, \<open>buildOptions_default\<close>,
  \<open>buildOptions_boolean\<close>, \<open>buildOptions_string\<close> and \<open>buildOptions_any\<close> show that
  they are what \<open>buildOptions\<close> computes.
\<close>

definition obj_sets :: "(string \<times> 'v) list \<Rightarrow> 'v jsobj \<Rightarrow> 'v jsobj" where
  \<comment> \<open>the assignments \<^verbatim>\<open>ob[k] = v\<close> of a list, in its order\<close>
  "obj_sets ws ob = fold (\<lambda>w ob. obj_set ob (fst w) (snd w)) ws ob"

definition aliasWritesOf :: "string \<times> optionValue \<Rightarrow> (string \<times> string) list" where
  \<comment> \<open>the assignments to \<^verbatim>\<open>minimistOpts.alias\<close> for one option: its alias, then its
      camelCase spelling\<close>
  "aliasWritesOf e =
     (case oalias (snd e) of
        None \<Rightarrow> []
      | Some a \<Rightarrow> if a \<noteq> [] then [(a, fst e)] else [])
     @ (if isHyphenated (fst e) then [(camelCase (fst e), fst e)] else [])"

definition defaultWritesOf :: "string \<times> optionValue \<Rightarrow> (string \<times> jsval) list" where
  \<comment> \<open>the assignments to \<^verbatim>\<open>minimistOpts.default\<close> for one option: its default, then
      \<^verbatim>\<open>true\<close> for the key without its first \<^verbatim>\<open>no-\<close>\<close>
  "defaultWritesOf e =
     (case truthyDefault (snd e) of None \<Rightarrow> [] | Some d \<Rightarrow> [(fst e, d)])
     @ (if str_includes ''no-'' (fst e)
        then [(replace_first ''no-'' (fst e), VBool True)] else [])"

definition aliasWrites :: "optionValue jsobj \<Rightarrow> (string \<times> string) list" where
  "aliasWrites options = concat (map aliasWritesOf options)"

definition defaultWrites :: "optionValue jsobj \<Rightarrow> (string \<times> jsval) list" where
  "defaultWrites options = concat (map defaultWritesOf options)"

definition optionType :: "optionValue \<Rightarrow> string" where
  \<comment> \<open>\<^verbatim>\<open>optionValue.default ? typeof optionValue.default : optionValue.type\<close>\<close>
  "optionType v =
     (case truthyDefault v of
        Some d \<Rightarrow> typeof d
      | None \<Rightarrow> (case otype v of None \<Rightarrow> [] | Some t \<Rightarrow> t))"

definition isBooleanOption :: "optionValue \<Rightarrow> bool" where
  \<comment> \<open>the option goes to \<^verbatim>\<open>minimistOpts.boolean\<close>, not to \<^verbatim>\<open>minimistOpts.string\<close>\<close>
  "isBooleanOption v =
     (if truthyString (otype v) \<or> truthyDefault v \<noteq> None then optionType v = ''boolean''
      else True)"

definition isAnyOption :: "optionValue \<Rightarrow> bool" where
  \<comment> \<open>the option goes to \<^verbatim>\<open>anyTypeOptions\<close>\<close>
  "isAnyOption v = (\<not> isBooleanOption v \<and> optionType v = ''any'')"

definition aliasPairs :: "string jsobj \<Rightarrow> (string \<times> string list) list" where
  \<comment> \<open>the assignments to \<^verbatim>\<open>aliases\<close> that \<open>makeAliases\<close> performs\<close>
  "aliasPairs al = concat (map (\<lambda>e. [(fst e, [snd e]), (snd e, [fst e])]) (obj_entries al))"

text \<open>
  A schema is well formed when its option keys are distinct, when every name it gives
  the tokenizer (option key, alias, camelCase spelling, key of a default) is a plain
  key other than \<^verbatim>\<open>_\<close>, and when no alias or camelCase spelling is also an option key
  or the key of a default. The options of the tool are well formed.
\<close>

definition wellFormed :: "optionValue jsobj \<Rightarrow> bool" where
  "wellFormed options =
     (distinct (map fst options)
      \<and> (\<forall>x \<in> set (map fst options @ map fst (aliasWrites options)
                    @ map fst (defaultWrites options)). plainKey x \<and> x \<noteq> ''_'')
      \<and> (\<forall>x \<in> set (map fst (aliasWrites options)).
            x \<notin> set (map fst options) \<and> x \<notin> set (map fst (defaultWrites options))))"

definition toolFlags :: "optionValue jsobj \<Rightarrow> flags" where
  \<comment> \<open>the flags of the tokenizer for a schema\<close>
  "toolFlags options = makeFlags (fst (buildOptions options))"

subsection \<open>Arguments that are no flags\<close>

definition plainToken :: "string \<Rightarrow> bool" where
  \<comment> \<open>an argument that the loop of the tokenizer pushes to \<^verbatim>\<open>argv._\<close>: none of its four
      tests for a flag holds, and it is not the separator \<^verbatim>\<open>--\<close>\<close>
  "plainToken a =
     (\<not> isLongEq a \<and> \<not> isLongNo a \<and> \<not> isLong a \<and> \<not> isShort a \<and> a \<noteq> ''--'')"

definition positional :: "flags \<Rightarrow> string \<Rightarrow> jsval" where
  \<comment> \<open>\<^verbatim>\<open>flags.strings._ || !isNumber(arg) ? arg : Number(arg)\<close>\<close>
  "positional F a =
     (if ''_'' \<in> set (strings F) \<or> \<not> isNumber (VStr a) then VStr a else Number (VStr a))"

subsection \<open>The names a command table can bind\<close>

definition boundNames :: "string list \<Rightarrow> string list" where
  "boundNames tmpl =
     concat (map (\<lambda>tok. case argumentNameOf tok of
                          None \<Rightarrow> [] | Some n \<Rightarrow> [n, camelCase n]) tmpl)"

definition templateNames :: "commandValue jsobj \<Rightarrow> string list" where
  "templateNames commands =
     concat (map (\<lambda>e. case template (snd e) of
                        None \<Rightarrow> [] | Some t \<Rightarrow> boundNames (split_on CHR '' '' t)) commands)"

subsection \<open>Names and values in the statements\<close>

definition wordKey :: "string \<Rightarrow> bool" where
  \<comment> \<open>a key written with \<^verbatim>\<open>[\w-]\<close> only, one character or more\<close>
  "wordKey k = (k \<noteq> [] \<and> (\<forall>c \<in> set k. is_name_char c))"

definition argValue :: "flags \<Rightarrow> string \<Rightarrow> jsval \<Rightarrow> jsval" where
  \<comment> \<open>\<^verbatim>\<open>!flags.strings[key] && isNumber(val) ? Number(val) : val\<close>, the value \<open>setArg\<close>
      stores\<close>
  "argValue F key val = (if key \<notin> set (strings F) \<and> isNumber val then Number val else val)"

definition restingValue :: "optionValue jsobj \<Rightarrow> string \<Rightarrow> jsval option" where
  \<comment> \<open>what the tokenizer leaves at a name no flag has set: a boolean option is
      \<^verbatim>\<open>true\<close> or \<^verbatim>\<open>false\<close> as it has a default or none, another name has its default\<close>
  "restingValue options f =
     (if f \<in> set (bools (toolFlags options))
      then Some (VBool (obj_get (default_opt (fst (buildOptions options))) f \<noteq> None))
      else obj_get (default_opt (fst (buildOptions options))) f)"

definition residual :: "string list \<Rightarrow> optionValue jsobj option \<Rightarrow> jsval list option" where
  \<comment> \<open>the residual positional list: \<^verbatim>\<open>result._\<close> as \<open>parseTemplates\<close> finds it\<close>
  "residual argv options =
     (case field (minimistPrettyParse argv options None) ''_'' of
        Some (VArr xs) \<Rightarrow> Some xs | _ \<Rightarrow> None)"


subsection \<open>The arguments that assign a name\<close>

text \<open>
  The tokenizer cuts the argument list at the first separator \<^verbatim>\<open>--\<close> and its loop reads
  what comes before. For one argument the body of the loop passes to \<^verbatim>\<open>setArg\<close> the key of
  a long flag, or letters of a group of short flags; \<^verbatim>\<open>setArg\<close> writes the key and the
  aliases of the key. \<open>flagKeys\<close> follows the tests of \<open>mstep\<close> in their order.
\<close>

definition flagArgs :: "string list \<Rightarrow> string list" where
  \<comment> \<open>\<^verbatim>\<open>args.slice(0, args.indexOf('--'))\<close>, or \<^verbatim>\<open>args\<close> when there is no separator\<close>
  "flagArgs args = takeWhile (\<lambda>a. a \<noteq> ''--'') args"

definition flagKeys :: "string \<Rightarrow> string list" where
  \<comment> \<open>the keys that the body of the loop can pass to \<^verbatim>\<open>setArg\<close> for the argument: the key
      of a long flag, every character after the dash of a group of short flags (the loop
      over the letters may stop before some of them)\<close>
  "flagKeys a =
     (if isLongEq a then (case matchLongEq a of None \<Rightarrow> [] | Some (key, value) \<Rightarrow> [key])
      else if isLongNo a then [groupOf 5 a]
      else if isLong a then [groupOf 2 a]
      else if isShort a then map (\<lambda>c. [c]) (tl a)
      else [])"

definition assigns :: "flags \<Rightarrow> string \<Rightarrow> string \<Rightarrow> bool" where
  \<comment> \<open>the argument \<open>a\<close> can assign the name \<open>f\<close>: \<open>f\<close> is one of its keys or an alias of one\<close>
  "assigns F a f = list_ex (\<lambda>key. key = f \<or> f \<in> set (aliases_of F key)) (flagKeys a)"

definition untouched :: "flags \<Rightarrow> string \<Rightarrow> string list \<Rightarrow> bool" where
  \<comment> \<open>no argument that the loop reads can assign the name \<open>f\<close>\<close>
  "untouched F f args = list_all (\<lambda>a. \<not> assigns F a f) (flagArgs args)"

definition flagName :: "string \<Rightarrow> bool" where
  \<comment> \<open>a key \<open>k\<close> for which the argument \<^verbatim>\<open>--k\<close> is the long flag of key \<open>k\<close>: written with
      \<^verbatim>\<open>[\w-]\<close>, beginning with neither \<^verbatim>\<open>-\<close> nor \<^verbatim>\<open>no-\<close>\<close>
  "flagName k = (wordKey k \<and> hd k \<noteq> CHR ''-'' \<and> \<not> starts_with ''no-'' k)"

definition binds :: "commandValue jsobj option \<Rightarrow> string \<Rightarrow> bool" where
  \<comment> \<open>a template of the command table, if there is a table, names \<open>f\<close>\<close>
  "binds commands f = (case commands of None \<Rightarrow> False | Some cs \<Rightarrow> f \<in> set (templateNames cs))"


(*PROPERTIES*)

section \<open>Properties\<close>

subsection \<open>Outcomes and objects\<close>

lemma thrown_iff: "thrown r = Some e \<longleftrightarrow> r = Inl e"
  by (simp add: thrown_def split: sum.splits)

lemma obj_get_set: "obj_get (obj_set ob k v) k' = (if k' = k then Some v else obj_get ob k')"
  by (induction ob) (auto simp: obj_get_def)

subsection \<open>The post-processing is idempotent\<close>

lemma coerce_idem: "coerce (coerce v) = coerce v"
  by (simp add: coerce_def)

lemma coerceAny_alt: "coerceAny k m = m(k \<mapsto> coerce (js_get m k))"
  by (simp add: coerceAny_def coerce_def)

lemma js_get_coerceAny:
  "js_get (coerceAny k m) x = (if x = k then coerce (js_get m k) else js_get m x)"
  by (simp add: coerceAny_alt js_get_def)

lemma coerceAny_apply:
  "coerceAny k m x = (if x = k then Some (coerce (js_get m k)) else m x)"
  by (simp add: coerceAny_alt)

lemma normalizeOptions_apply:
  "normalizeOptions ks m x = (if x \<in> set ks then Some (coerce (js_get m x)) else m x)"
  unfolding normalizeOptions_def
proof (induction ks arbitrary: m)
  case Nil
  show ?case by simp
next
  case (Cons k ks)
  have "fold coerceAny (k # ks) m x = fold coerceAny ks (coerceAny k m) x"
    by simp
  also have "\<dots> = (if x \<in> set ks then Some (coerce (js_get (coerceAny k m) x))
                    else coerceAny k m x)"
    by (rule Cons.IH)
  also have "\<dots> = (if x \<in> set (k # ks) then Some (coerce (js_get m x)) else m x)"
    by (simp add: js_get_coerceAny coerceAny_apply coerce_idem)
  finally show ?case .
qed

text \<open>
  C8. The normalization of the option map, which is the post-processing of the
  either-typed options (\<^verbatim>\<open>anyTypeOptions.forEach\<close>), is idempotent: for every list of
  keys and every option map, normalizing the normalized map gives the normalized map.
\<close>

theorem normalize_idempotent:
  "normalizeOptions ks (normalizeOptions ks m) = normalizeOptions ks m"
proof
  fix x
  show "normalizeOptions ks (normalizeOptions ks m) x = normalizeOptions ks m x"
    by (simp add: normalizeOptions_apply js_get_def coerce_idem)
qed

subsection \<open>A template of more than one token\<close>

text \<open>
  C1. The claim: for every schema whose templates keep the token order and every
  argument list without unknown flags, the parse returns a result or a usage error,
  never an unstructured fault. The code: a template with a space in it is split after
  reading \<^verbatim>\<open>commands[commands]\<close>, the property of the command table named by the table
  itself, which is \<^verbatim>\<open>undefined\<close>; reading its \<^verbatim>\<open>template\<close> is a TypeError. Here the
  default command has the two required tokens \<^verbatim>\<open><src> <dst>\<close> and the arguments are two
  positionals.
\<close>

theorem two_token_template_type_error:
  "minimistPrettyParse [''a'', ''b''] (Some tool_options)
     (Some [(''*'', cmd (Some ''<src> <dst>''))]) = Inl TypeError"
proof -
  have "thrown (minimistPrettyParse [''a'', ''b''] (Some tool_options)
          (Some [(''*'', cmd (Some ''<src> <dst>''))])) = Some TypeError"
    by code_simp
  then show ?thesis by (simp only: thrown_iff)
qed

text \<open>
  C3. The claim: a command with the two required tokens \<^verbatim>\<open>x\<close> and \<^verbatim>\<open>y\<close> answers three
  positionals with the usage error of too many arguments and one positional with the
  usage error of the missing \<^verbatim>\<open>y\<close>. The code: the template \<^verbatim>\<open><x> <y>\<close> has a space, so
  both parses end in the TypeError of \<^verbatim>\<open>commands[commands].template\<close> before any
  token is looked at.
\<close>

theorem arity_checks_not_reached:
  "minimistPrettyParse [''cmd'', ''a'', ''b'', ''c''] (Some tool_options)
     (Some [(''*'', cmd (Some ''[torrent-ids...]'')), (''cmd'', cmd (Some ''<x> <y>''))])
     = Inl TypeError
   \<and> minimistPrettyParse [''cmd'', ''a''] (Some tool_options)
     (Some [(''*'', cmd (Some ''[torrent-ids...]'')), (''cmd'', cmd (Some ''<x> <y>''))])
     = Inl TypeError"
proof -
  have "thrown (minimistPrettyParse [''cmd'', ''a'', ''b'', ''c''] (Some tool_options)
          (Some [(''*'', cmd (Some ''[torrent-ids...]'')), (''cmd'', cmd (Some ''<x> <y>''))]))
        = Some TypeError"
    by code_simp
  moreover have "thrown (minimistPrettyParse [''cmd'', ''a''] (Some tool_options)
          (Some [(''*'', cmd (Some ''[torrent-ids...]'')), (''cmd'', cmd (Some ''<x> <y>''))]))
        = Some TypeError"
    by code_simp
  ultimately show ?thesis by (simp only: thrown_iff)
qed

lemma obj_sets_Nil [simp]: "obj_sets [] ob = ob"
  by (simp add: obj_sets_def)

lemma obj_sets_Cons [simp]: "obj_sets (w # ws) ob = obj_sets ws (obj_set ob (fst w) (snd w))"
  by (simp add: obj_sets_def)

lemma obj_sets_append [simp]: "obj_sets (ws @ ws') ob = obj_sets ws' (obj_sets ws ob)"
  by (simp add: obj_sets_def)

lemma obj_get_sets:
  "obj_get (obj_sets ws ob) x =
     (case map_of (rev ws) x of None \<Rightarrow> obj_get ob x | Some v \<Rightarrow> Some v)"
proof (induction ws arbitrary: ob)
  case Nil
  show ?case by simp
next
  case (Cons w ws)
  show ?case
    by (cases w) (auto simp: Cons.IH obj_get_set map_add_def split: option.splits)
qed

lemma obj_get_sets_mem:
  assumes "obj_get (obj_sets ws []) x = Some v"
  shows "(x, v) \<in> set ws"
proof -
  have "obj_get ([] :: 'a jsobj) x = None" by (simp add: obj_get_def)
  with assms have "map_of (rev ws) x = Some v"
    by (simp add: obj_get_sets split: option.splits)
  then have "(x, v) \<in> set (rev ws)" by (rule map_of_SomeD)
  then show ?thesis by simp
qed


lemma obj_get_sets_none:
  assumes "x \<notin> fst ` set ws"
  shows "obj_get (obj_sets ws ob) x = obj_get ob x"
proof -
  from assms have "map_of (rev ws) x = None"
    by (simp add: map_of_eq_None_iff)
  then show ?thesis by (simp add: obj_get_sets)
qed

lemma set_fst_obj_set: "fst ` set (obj_set ob k v) = insert k (fst ` set ob)"
  by (induction ob) auto

lemma set_obj_keys: "set (obj_keys ob) = fst ` set ob"
  by (auto simp: obj_keys_def Let_def)

lemma obj_get_Some_key: "obj_get ob k = Some v \<Longrightarrow> k \<in> fst ` set ob"
  unfolding obj_get_def by (metis map_of_SomeD fst_conv image_eqI)

lemma set_obj_entries: "(k, v) \<in> set (obj_entries ob) \<longleftrightarrow> obj_get ob k = Some v"
proof
  assume "(k, v) \<in> set (obj_entries ob)"
  then show "obj_get ob k = Some v"
    by (auto simp: obj_entries_def split: option.splits)
next
  assume g: "obj_get ob k = Some v"
  then have "k \<in> set (obj_keys ob)" by (simp add: set_obj_keys obj_get_Some_key)
  with g show "(k, v) \<in> set (obj_entries ob)"
    by (force simp: obj_entries_def)
qed

subsection \<open>buildOptions\<close>

lemma build_alias:
  "alias_opt (fst (buildOption e acc)) = obj_sets (aliasWritesOf e) (alias_opt (fst acc))"
  by (cases e; cases acc)
     (auto simp: buildOption_def aliasWritesOf_def truthyString_def Let_def split: option.splits)

lemma build_default:
  "default_opt (fst (buildOption e acc)) = obj_sets (defaultWritesOf e) (default_opt (fst acc))"
  by (cases e; cases acc)
     (auto simp: buildOption_def defaultWritesOf_def Let_def split: option.splits)

lemma build_boolean:
  "boolean_opt (fst (buildOption e acc)) =
     boolean_opt (fst acc) @ (if isBooleanOption (snd e) then [fst e] else [])"
  by (cases e; cases acc)
     (auto simp: buildOption_def isBooleanOption_def optionType_def Let_def split: option.splits)

lemma build_string:
  "string_opt (fst (buildOption e acc)) =
     string_opt (fst acc) @ (if isBooleanOption (snd e) then [] else [fst e])"
  by (cases e; cases acc)
     (auto simp: buildOption_def isBooleanOption_def optionType_def Let_def split: option.splits)

lemma build_any:
  "snd (buildOption e acc) = snd acc @ (if isAnyOption (snd e) then [fst e] else [])"
  by (cases e; cases acc)
     (auto simp: buildOption_def isAnyOption_def isBooleanOption_def optionType_def Let_def
           split: option.splits)

lemma fold_build_alias:
  "alias_opt (fst (fold buildOption options acc)) =
     obj_sets (aliasWrites options) (alias_opt (fst acc))"
  by (induction options arbitrary: acc) (simp_all add: aliasWrites_def build_alias)

lemma fold_build_default:
  "default_opt (fst (fold buildOption options acc)) =
     obj_sets (defaultWrites options) (default_opt (fst acc))"
  by (induction options arbitrary: acc) (simp_all add: defaultWrites_def build_default)

lemma fold_build_boolean:
  "boolean_opt (fst (fold buildOption options acc)) =
     boolean_opt (fst acc) @ map fst (filter (\<lambda>e. isBooleanOption (snd e)) options)"
  by (induction options arbitrary: acc) (simp_all add: build_boolean)

lemma fold_build_string:
  "string_opt (fst (fold buildOption options acc)) =
     string_opt (fst acc) @ map fst (filter (\<lambda>e. \<not> isBooleanOption (snd e)) options)"
  by (induction options arbitrary: acc) (simp_all add: build_string)

lemma fold_build_any:
  "snd (fold buildOption options acc) =
     snd acc @ map fst (filter (\<lambda>e. isAnyOption (snd e)) options)"
  by (induction options arbitrary: acc) (simp_all add: build_any)

lemma buildOptions_alias:
  "alias_opt (fst (buildOptions options)) = obj_sets (aliasWrites options) []"
  by (simp add: buildOptions_def fold_build_alias emptyOpts_def)

lemma buildOptions_default:
  "default_opt (fst (buildOptions options)) = obj_sets (defaultWrites options) []"
  by (simp add: buildOptions_def fold_build_default emptyOpts_def)

lemma buildOptions_boolean:
  "boolean_opt (fst (buildOptions options)) =
     map fst (filter (\<lambda>e. isBooleanOption (snd e)) options)"
  by (simp add: buildOptions_def fold_build_boolean emptyOpts_def)

lemma buildOptions_string:
  "string_opt (fst (buildOptions options)) =
     map fst (filter (\<lambda>e. \<not> isBooleanOption (snd e)) options)"
  by (simp add: buildOptions_def fold_build_string emptyOpts_def)

lemma buildOptions_any:
  "snd (buildOptions options) = map fst (filter (\<lambda>e. isAnyOption (snd e)) options)"
  by (simp add: buildOptions_def fold_build_any)

subsection \<open>The flags of the tokenizer\<close>

lemma addAlias_sets: "addAlias e al = obj_sets [(fst e, [snd e]), (snd e, [fst e])] al"
  by (cases e) (simp add: addAlias_def)

lemma fold_addAlias:
  "fold addAlias es al = obj_sets (concat (map (\<lambda>e. [(fst e, [snd e]), (snd e, [fst e])]) es)) al"
  by (induction es arbitrary: al) (simp_all add: addAlias_sets)

lemma makeAliases_sets: "makeAliases al = obj_sets (aliasPairs al) []"
  by (simp add: makeAliases_def aliasPairs_def fold_addAlias)

lemma aliasPairs_mem:
  "(y, xs) \<in> set (aliasPairs al) \<longleftrightarrow>
     (\<exists>x. xs = [x] \<and> (obj_get al y = Some x \<or> obj_get al x = Some y))"
proof
  assume "(y, xs) \<in> set (aliasPairs al)"
  then obtain e where e: "e \<in> set (obj_entries al)"
    and "(y, xs) = (fst e, [snd e]) \<or> (y, xs) = (snd e, [fst e])"
    by (auto simp: aliasPairs_def)
  then show "\<exists>x. xs = [x] \<and> (obj_get al y = Some x \<or> obj_get al x = Some y)"
    using set_obj_entries [of "fst e" "snd e" al] by auto
next
  assume "\<exists>x. xs = [x] \<and> (obj_get al y = Some x \<or> obj_get al x = Some y)"
  then obtain x where xs: "xs = [x]" and "obj_get al y = Some x \<or> obj_get al x = Some y"
    by blast
  then have "(y, x) \<in> set (obj_entries al) \<or> (x, y) \<in> set (obj_entries al)"
    by (simp add: set_obj_entries)
  then show "(y, xs) \<in> set (aliasPairs al)"
    unfolding aliasPairs_def xs by force
qed

lemma aliases_toolFlags:
  "aliases (toolFlags options) = obj_sets (aliasPairs (obj_sets (aliasWrites options) [])) []"
  by (simp add: toolFlags_def makeFlags_def makeAliases_sets buildOptions_alias)

lemma alias_entry_mem:
  "obj_get (obj_sets (aliasWrites options) []) x = Some y \<Longrightarrow> (x, y) \<in> set (aliasWrites options)"
  by (rule obj_get_sets_mem)

lemma aliases_of_mem:
  assumes "x \<in> set (aliases_of (toolFlags options) y)"
  shows "(x, y) \<in> set (aliasWrites options) \<or> (y, x) \<in> set (aliasWrites options)"
proof -
  from assms obtain xs where g: "obj_get (aliases (toolFlags options)) y = Some xs" and x: "x \<in> set xs"
    by (cases "obj_get (aliases (toolFlags options)) y") (auto simp: aliases_of_def)
  from g have "(y, xs) \<in> set (aliasPairs (obj_sets (aliasWrites options) []))"
    unfolding aliases_toolFlags by (rule obj_get_sets_mem)
  with x show ?thesis
    by (auto simp: aliasPairs_mem dest: alias_entry_mem)
qed

lemma aliasWrites_target:
  "(a, k) \<in> set (aliasWrites options) \<Longrightarrow> k \<in> fst ` set options"
  by (auto simp: aliasWrites_def aliasWritesOf_def split: option.splits if_splits)

lemma set_fst_fold_obj_set:
  "fst ` set (fold (\<lambda>k ob. obj_set ob k v) ks ob) = set ks \<union> fst ` set ob"
  by (induction ks arbitrary: ob) (auto simp: set_fst_obj_set)

lemma set_makeBools: "set (makeBools bs) = {k \<in> set bs. k \<noteq> []}"
  by (auto simp: makeBools_def set_obj_keys set_fst_fold_obj_set)

lemma bools_toolFlags:
  "set (bools (toolFlags options)) =
     {k. k \<noteq> [] \<and> (\<exists>v. (k, v) \<in> set options \<and> isBooleanOption v)}"
proof -
  have "bools (toolFlags options) = makeBools (map fst (filter (\<lambda>e. isBooleanOption (snd e)) options))"
    by (simp add: toolFlags_def makeFlags_def buildOptions_boolean)
  then show ?thesis
    by (auto simp: set_makeBools image_iff)
qed

lemma strings_toolFlags:
  "x \<in> set (strings (toolFlags options)) \<longleftrightarrow>
     (\<exists>k v. (k, v) \<in> set options \<and> \<not> isBooleanOption v \<and> k \<noteq> []
            \<and> (x = k \<or> x \<in> set (aliases_of (toolFlags options) k)))"
proof -
  have al: "makeAliases (alias_opt (fst (buildOptions options))) = aliases (toolFlags options)"
    by (simp add: toolFlags_def makeFlags_def)
  have st: "strings (toolFlags options) =
      concat (map (\<lambda>key. key # aliases_of (toolFlags options) key)
        (filter (\<lambda>k. k \<noteq> []) (map fst (filter (\<lambda>e. \<not> isBooleanOption (snd e)) options))))"
    unfolding aliases_of_def al [symmetric]
    by (simp add: toolFlags_def makeFlags_def makeStrings_def buildOptions_string)
  show ?thesis
    unfolding st by (auto simp: image_iff) 
qed

subsection \<open>Well-formed schemas\<close>

lemma wf_distinct: "wellFormed options \<Longrightarrow> distinct (map fst options)"
  by (simp add: wellFormed_def)

lemma wf_key_plain:
  assumes "wellFormed options" and "(k, v) \<in> set options"
  shows "plainKey k \<and> k \<noteq> ''_''"
proof -
  from assms(2) have "k \<in> fst ` set options" by force
  with assms(1) show ?thesis unfolding wellFormed_def by simp
qed

lemma wf_alias_plain:
  assumes "wellFormed options" and "(a, k) \<in> set (aliasWrites options)"
  shows "plainKey a \<and> a \<noteq> ''_''"
proof -
  from assms(2) have "a \<in> fst ` set (aliasWrites options)" by force
  with assms(1) show ?thesis unfolding wellFormed_def by simp
qed

lemma wf_default_plain:
  assumes "wellFormed options" and "(k, d) \<in> set (defaultWrites options)"
  shows "plainKey k \<and> k \<noteq> ''_''"
proof -
  from assms(2) have "k \<in> fst ` set (defaultWrites options)" by force
  with assms(1) show ?thesis unfolding wellFormed_def by simp
qed

lemma wf_alias_not_key:
  assumes "wellFormed options" and "(a, k) \<in> set (aliasWrites options)"
  shows "a \<notin> fst ` set options"
proof -
  from assms(1) have "\<forall>x \<in> set (aliasWrites options). fst x \<notin> fst ` set options"
    unfolding wellFormed_def by simp
  from bspec [OF this assms(2)] show ?thesis by simp
qed

lemma wf_alias_not_default:
  assumes "wellFormed options" and "(a, k) \<in> set (aliasWrites options)"
  shows "a \<notin> fst ` set (defaultWrites options)"
proof -
  from assms(1) have "\<forall>x \<in> set (aliasWrites options). fst x \<notin> fst ` set (defaultWrites options)"
    unfolding wellFormed_def by simp
  from bspec [OF this assms(2)] show ?thesis by simp
qed


lemma wf_aliases_plain:
  assumes "wellFormed options" and "x \<in> set (aliases_of (toolFlags options) y)"
  shows "plainKey x \<and> x \<noteq> ''_''"
proof -
  from aliases_of_mem [OF assms(2)]
  show ?thesis
  proof
    assume "(x, y) \<in> set (aliasWrites options)"
    with assms(1) show ?thesis by (rule wf_alias_plain)
  next
    assume "(y, x) \<in> set (aliasWrites options)"
    then have "x \<in> fst ` set options" by (rule aliasWrites_target)
    with assms(1) show ?thesis by (auto dest: wf_key_plain)
  qed
qed

lemma wf_not_aliased:
  assumes "wellFormed options" and "f \<notin> fst ` set (aliasWrites options)"
    and "y \<notin> fst ` set (aliasWrites options)"
  shows "f \<notin> set (aliases_of (toolFlags options) y)"
proof
  assume "f \<in> set (aliases_of (toolFlags options) y)"
  from aliases_of_mem [OF this] assms(2,3) show False by force
qed

subsection \<open>Sequencing\<close>

lemma bind_Inr [simp]: "bind (Inr x) f = f x"
  by (simp add: bind_def)

lemma bind_Inl [simp]: "bind (Inl e) f = Inl e"
  by (simp add: bind_def)

lemma forEach_append:
  "forEach (xs @ ys) f s = bind (forEach xs f s) (forEach ys f)"
  by (induction xs arbitrary: s) (auto split: sum.splits)

subsection \<open>Assignments to the result\<close>

lemma js_get_upd [simp]: "js_get (st(k \<mapsto> v)) x = (if x = k then v else js_get st x)"
  by (simp add: js_get_def)

lemma js_get_None: "st k = None \<Longrightarrow> js_get st k = VUndef"
  by (simp add: js_get_def)

lemma setKey_frame:
  assumes "setKey F key v st = Inr st'" and "x \<noteq> key"
  shows "st' x = st x"
  using assms by (auto simp: setKey_def split: if_splits jsval.splits)

lemma setKey_total:
  assumes "plainKey key"
  shows "\<exists>st'. setKey F key v st = Inr st'"
  using assms by (auto simp: setKey_def split: jsval.splits)

lemma setKey_assign:
  assumes "plainKey key"
    and "js_get st key = VUndef \<or> key \<in> set (bools F) \<or> is_boolean (js_get st key)"
  shows "setKey F key v st = Inr (st(key \<mapsto> v))"
  using assms by (auto simp: setKey_def)

lemma forEach_setKey:
  assumes "\<forall>x \<in> set xs. plainKey x"
  shows "\<exists>st'. forEach xs (\<lambda>x. setKey F x v) st = Inr st' \<and> (\<forall>y. y \<notin> set xs \<longrightarrow> st' y = st y)"
  using assms
proof (induction xs arbitrary: st)
  case Nil
  show ?case by simp
next
  case (Cons x xs)
  from Cons.prems have "plainKey x" by simp
  then obtain s1 where s1: "setKey F x v st = Inr s1"
    using setKey_total by blast
  from Cons.prems have "\<forall>x \<in> set xs. plainKey x" by simp
  from Cons.IH [OF this, of s1] obtain st' where
    st': "forEach xs (\<lambda>x. setKey F x v) s1 = Inr st'" and fr: "\<forall>y. y \<notin> set xs \<longrightarrow> st' y = s1 y"
    by blast
  have "\<forall>y. y \<notin> set (x # xs) \<longrightarrow> st' y = st y"
    using fr setKey_frame [OF s1] by simp
  with s1 st' show ?case by simp
qed

lemma setArg_unfold:
  assumes "\<forall>xs. val \<noteq> VArr xs"
  shows "setArg F key val st =
           bind (setKey F key (argValue F key val) st)
                (forEach (aliases_of F key) (\<lambda>x. setKey F x (argValue F key val)))"
  using assms by (cases val) (simp_all add: setArg_def argValue_def Let_def)

lemma setArg_result:
  assumes val: "\<forall>xs. val \<noteq> VArr xs"
    and plain: "plainKey key" "\<forall>x \<in> set (aliases_of F key). plainKey x"
  shows "\<exists>st'. setArg F key val st = Inr st'
           \<and> (\<forall>y. y \<noteq> key \<and> y \<notin> set (aliases_of F key) \<longrightarrow> st' y = st y)
           \<and> (key \<notin> set (aliases_of F key)
                \<and> (js_get st key = VUndef \<or> key \<in> set (bools F) \<or> is_boolean (js_get st key))
              \<longrightarrow> st' key = Some (argValue F key val))"
proof -
  obtain s1 where s1: "setKey F key (argValue F key val) st = Inr s1"
    using setKey_total [OF plain(1)] by blast
  obtain st' where st': "forEach (aliases_of F key) (\<lambda>x. setKey F x (argValue F key val)) s1 = Inr st'"
    and fr: "\<forall>y. y \<notin> set (aliases_of F key) \<longrightarrow> st' y = s1 y"
    using forEach_setKey [OF plain(2)] by blast
  have 1: "setArg F key val st = Inr st'"
    by (simp add: setArg_unfold [OF val] s1 st')
  have 2: "\<forall>y. y \<noteq> key \<and> y \<notin> set (aliases_of F key) \<longrightarrow> st' y = st y"
    using fr setKey_frame [OF s1] by simp
  have 3: "st' key = Some (argValue F key val)"
    if "key \<notin> set (aliases_of F key)"
      and "js_get st key = VUndef \<or> key \<in> set (bools F) \<or> is_boolean (js_get st key)"
  proof -
    from setKey_assign [OF plain(1) that(2)] s1 have "s1 = st(key \<mapsto> argValue F key val)"
      by simp
    with fr that(1) show ?thesis by simp
  qed
  from 1 2 3 show ?thesis by blast
qed

subsection \<open>The phases of the tokenizer on a well-formed schema\<close>

lemma distinct_fst_eq:
  assumes "distinct (map fst xs)" and "(k, v) \<in> set xs" and "(k, v') \<in> set xs"
  shows "v = v'"
  using assms by (meson eq_key_imp_eq_value)

lemma typeof_boolean: "typeof d = ''boolean'' \<Longrightarrow> \<exists>b. d = VBool b"
  by (cases d) simp_all

lemma default_of_boolean:
  assumes wf: "wellFormed options" and k: "(k, v) \<in> set options" and b: "isBooleanOption v"
    and d: "(k, d) \<in> set (defaultWrites options)"
  shows "d = VBool True"
proof -
  from d obtain e where e: "e \<in> set options" and de: "(k, d) \<in> set (defaultWritesOf e)"
    by (auto simp: defaultWrites_def)
  show ?thesis
  proof (cases "d = VBool True")
    case True
    then show ?thesis .
  next
    case False
    with de have own: "fst e = k" "truthyDefault (snd e) = Some d"
      by (auto simp: defaultWritesOf_def split: option.splits if_splits)
    from own(1) e have "(k, snd e) \<in> set options" by (metis prod.collapse)
    with k wf_distinct [OF wf] have "snd e = v" by (meson distinct_fst_eq)
    with own(2) have td: "truthyDefault v = Some d" by simp
    with b have "typeof d = ''boolean''"
      by (simp add: isBooleanOption_def optionType_def)
    then obtain bb where bb: "d = VBool bb" using typeof_boolean by blast
    from td have "truthy d"
      by (auto simp: truthyDefault_def split: option.splits if_splits)
    with bb show ?thesis by simp
  qed
qed

lemma key_not_alias:
  assumes "wellFormed options" and "k \<in> fst ` set options"
  shows "k \<notin> fst ` set (aliasWrites options)"
proof
  assume "k \<in> fst ` set (aliasWrites options)"
  then obtain y where "(k, y) \<in> set (aliasWrites options)" by force
  from wf_alias_not_key [OF assms(1) this] assms(2) show False by simp
qed

lemma default_not_alias:
  assumes "wellFormed options" and "k \<in> fst ` set (defaultWrites options)"
  shows "k \<notin> fst ` set (aliasWrites options)"
proof
  assume "k \<in> fst ` set (aliasWrites options)"
  then obtain y where "(k, y) \<in> set (aliasWrites options)" by force
  from wf_alias_not_default [OF assms(1) this] assms(2) show False by simp
qed

lemma initBool_step:
  assumes wf: "wellFormed options" and kb: "k \<in> set (bools (toolFlags options))"
  shows "\<exists>st'. initBool (toolFlags options) (default_opt (fst (buildOptions options))) k st = Inr st'
           \<and> (\<forall>f. f \<notin> fst ` set (aliasWrites options) \<longrightarrow>
                 st' f = (if f = k
                          then Some (VBool (obj_get (default_opt (fst (buildOptions options))) k \<noteq> None))
                          else st f))"
proof -
  let ?F = "toolFlags options" and ?D = "default_opt (fst (buildOptions options))"
  from kb obtain v where kv: "(k, v) \<in> set options" and bo: "isBooleanOption v"
    by (auto simp: bools_toolFlags)
  have kk: "k \<in> fst ` set options" using kv by force
  have kna: "k \<notin> fst ` set (aliasWrites options)" by (rule key_not_alias [OF wf kk])
  have dv: "(case obj_get ?D k of None \<Rightarrow> VBool False | Some d \<Rightarrow> if d = VUndef then VBool False else d)
            = VBool (obj_get ?D k \<noteq> None)"
  proof (cases "obj_get ?D k")
    case None
    then show ?thesis by simp
  next
    case (Some d)
    then have "(k, d) \<in> set (defaultWrites options)"
      unfolding buildOptions_default by (rule obj_get_sets_mem)
    from default_of_boolean [OF wf kv bo this] Some show ?thesis by simp
  qed
  have plain: "plainKey k" using wf_key_plain [OF wf kv] by simp
  have aplain: "\<forall>x \<in> set (aliases_of ?F k). plainKey x"
    using wf_aliases_plain [OF wf] by blast
  have self: "k \<notin> set (aliases_of ?F k)" by (rule wf_not_aliased [OF wf kna kna])
  have nonarr: "\<forall>xs. VBool (obj_get ?D k \<noteq> None) \<noteq> VArr xs" by simp
  from setArg_result [OF nonarr plain aplain, of st]
  obtain st' where r: "setArg ?F k (VBool (obj_get ?D k \<noteq> None)) st = Inr st'"
    and fr: "\<forall>y. y \<noteq> k \<and> y \<notin> set (aliases_of ?F k) \<longrightarrow> st' y = st y"
    and val: "st' k = Some (argValue ?F k (VBool (obj_get ?D k \<noteq> None)))"
    using self kb by blast
  have av: "argValue ?F k (VBool (obj_get ?D k \<noteq> None)) = VBool (obj_get ?D k \<noteq> None)"
    by (simp add: argValue_def)
  have "\<forall>f. f \<notin> fst ` set (aliasWrites options) \<longrightarrow>
          st' f = (if f = k then Some (VBool (obj_get ?D k \<noteq> None)) else st f)"
  proof (intro allI impI)
    fix f assume fna: "f \<notin> fst ` set (aliasWrites options)"
    have "f \<notin> set (aliases_of ?F k)" by (rule wf_not_aliased [OF wf fna kna])
    with fr val av show "st' f = (if f = k then Some (VBool (obj_get ?D k \<noteq> None)) else st f)"
      by simp
  qed
  with r show ?thesis by (simp add: initBool_def dv)
qed

lemma init_bools:
  assumes wf: "wellFormed options" and ks: "set ks \<subseteq> set (bools (toolFlags options))"
  shows "\<exists>st'. forEach ks (initBool (toolFlags options) (default_opt (fst (buildOptions options)))) st
                 = Inr st'
           \<and> (\<forall>f. f \<notin> fst ` set (aliasWrites options) \<longrightarrow>
                 st' f = (if f \<in> set ks
                          then Some (VBool (obj_get (default_opt (fst (buildOptions options))) f \<noteq> None))
                          else st f))"
  using ks
proof (induction ks arbitrary: st)
  case Nil
  show ?case by simp
next
  case (Cons k ks)
  from Cons.prems have kb: "k \<in> set (bools (toolFlags options))"
    and ks': "set ks \<subseteq> set (bools (toolFlags options))" by simp_all
  from initBool_step [OF wf kb, of st] obtain s1 where
    s1: "initBool (toolFlags options) (default_opt (fst (buildOptions options))) k st = Inr s1"
    and f1: "\<forall>f. f \<notin> fst ` set (aliasWrites options) \<longrightarrow>
                 s1 f = (if f = k
                         then Some (VBool (obj_get (default_opt (fst (buildOptions options))) k \<noteq> None))
                         else st f)"
    by blast
  from Cons.IH [OF ks', of s1] obtain st' where
    st': "forEach ks (initBool (toolFlags options) (default_opt (fst (buildOptions options)))) s1
            = Inr st'"
    and f2: "\<forall>f. f \<notin> fst ` set (aliasWrites options) \<longrightarrow>
                 st' f = (if f \<in> set ks
                          then Some (VBool (obj_get (default_opt (fst (buildOptions options))) f \<noteq> None))
                          else s1 f)"
    by blast
  have "\<forall>f. f \<notin> fst ` set (aliasWrites options) \<longrightarrow>
          st' f = (if f \<in> set (k # ks)
                   then Some (VBool (obj_get (default_opt (fst (buildOptions options))) f \<noteq> None))
                   else st f)"
    using f1 f2 by simp
  with s1 st' show ?case by simp
qed

lemma fillDefault_step:
  assumes wf: "wellFormed options"
    and e: "obj_get (default_opt (fst (buildOptions options))) k = Some d"
  shows "\<exists>st'. fillDefault (toolFlags options) (k, d) st = Inr st'
           \<and> (\<forall>f. f \<notin> fst ` set (aliasWrites options) \<longrightarrow>
                 st' f = (if st f = None \<and> f = k then Some d else st f))"
proof (cases "hasKey st k")
  case True
  then show ?thesis by (auto simp: fillDefault_def hasKey_def)
next
  case False
  let ?F = "toolFlags options"
  from e have kd: "(k, d) \<in> set (defaultWrites options)"
    unfolding buildOptions_default by (rule obj_get_sets_mem)
  then have kdk: "k \<in> fst ` set (defaultWrites options)" by force
  have kna: "k \<notin> fst ` set (aliasWrites options)" by (rule default_not_alias [OF wf kdk])
  have plain: "plainKey k" using wf_default_plain [OF wf kd] by simp
  from False have none: "st k = None" by (simp add: hasKey_def)
  then have s1: "setKey ?F k d st = Inr (st(k \<mapsto> d))"
    using setKey_assign [OF plain] by (simp add: js_get_None)
  have aplain: "\<forall>x \<in> set (aliases_of ?F k). plainKey x"
    using wf_aliases_plain [OF wf] by blast
  from forEach_setKey [OF aplain, of ?F d "st(k \<mapsto> d)"] obtain st' where
    st': "forEach (aliases_of ?F k) (\<lambda>x. setKey ?F x d) (st(k \<mapsto> d)) = Inr st'"
    and fr: "\<forall>y. y \<notin> set (aliases_of ?F k) \<longrightarrow> st' y = (st(k \<mapsto> d)) y"
    by blast
  have "\<forall>f. f \<notin> fst ` set (aliasWrites options) \<longrightarrow>
          st' f = (if st f = None \<and> f = k then Some d else st f)"
  proof (intro allI impI)
    fix f assume fna: "f \<notin> fst ` set (aliasWrites options)"
    have "f \<notin> set (aliases_of ?F k)" by (rule wf_not_aliased [OF wf fna kna])
    with fr none show "st' f = (if st f = None \<and> f = k then Some d else st f)" by simp
  qed
  with False s1 st' show ?thesis by (simp add: fillDefault_def)
qed

lemma fill_defaults:
  assumes wf: "wellFormed options"
    and es: "\<forall>e \<in> set es. obj_get (default_opt (fst (buildOptions options))) (fst e) = Some (snd e)"
  shows "\<exists>st'. forEach es (fillDefault (toolFlags options)) st = Inr st'
           \<and> (\<forall>f. f \<notin> fst ` set (aliasWrites options) \<longrightarrow>
                 st' f = (if st f = None \<and> f \<in> fst ` set es
                          then obj_get (default_opt (fst (buildOptions options))) f else st f))"
  using es
proof (induction es arbitrary: st)
  case Nil
  show ?case by simp
next
  case (Cons e es)
  obtain k d where e: "e = (k, d)" by (cases e)
  from Cons.prems e have kd: "obj_get (default_opt (fst (buildOptions options))) k = Some d"
    and es': "\<forall>e \<in> set es. obj_get (default_opt (fst (buildOptions options))) (fst e) = Some (snd e)"
    by simp_all
  from fillDefault_step [OF wf kd, of st] obtain s1 where
    s1: "fillDefault (toolFlags options) (k, d) st = Inr s1"
    and f1: "\<forall>f. f \<notin> fst ` set (aliasWrites options) \<longrightarrow>
                 s1 f = (if st f = None \<and> f = k then Some d else st f)"
    by blast
  from Cons.IH [OF es', of s1] obtain st' where
    st': "forEach es (fillDefault (toolFlags options)) s1 = Inr st'"
    and f2: "\<forall>f. f \<notin> fst ` set (aliasWrites options) \<longrightarrow>
                 st' f = (if s1 f = None \<and> f \<in> fst ` set es
                          then obj_get (default_opt (fst (buildOptions options))) f else s1 f)"
    by blast
  have "\<forall>f. f \<notin> fst ` set (aliasWrites options) \<longrightarrow>
          st' f = (if st f = None \<and> f \<in> fst ` set (e # es)
                   then obj_get (default_opt (fst (buildOptions options))) f else st f)"
    using f1 f2 kd e by auto
  with s1 st' e show ?case by simp
qed

subsection \<open>The loop over the arguments\<close>

lemma pushArg_array:
  "st ''_'' = Some (VArr xs) \<Longrightarrow> pushArg v st = Inr (st(''_'' \<mapsto> VArr (xs @ [v])))"
  by (simp add: pushArg_def js_get_def)

lemma mstep_plain:
  "plainToken a \<Longrightarrow> mstep F a nxt st = bind (pushArg (positional F a) st) (\<lambda>s. Inr (s, False))"
  by (simp add: mstep_def plainToken_def positional_def)

lemma mloop_plain:
  assumes "\<forall>a \<in> set pre. plainToken a" and "st ''_'' = Some (VArr xs)"
  shows "mloop F (pre @ rest) st = mloop F rest (st(''_'' \<mapsto> VArr (xs @ map (positional F) pre)))"
  using assms
proof (induction pre arbitrary: st xs)
  case Nil
  then have "st(''_'' \<mapsto> VArr xs) = st" by (simp add: fun_upd_idem)
  then show ?case by simp
next
  case (Cons a pre)
  from Cons.prems have pa: "plainToken a" and pp: "\<forall>a \<in> set pre. plainToken a" by simp_all
  let ?s1 = "st(''_'' \<mapsto> VArr (xs @ [positional F a]))"
  have step: "mstep F a nxt st = Inr (?s1, False)" for nxt
    by (simp add: mstep_plain [OF pa] pushArg_array [where st = st and xs = xs, OF Cons.prems(2)])
  have s1: "?s1 ''_'' = Some (VArr (xs @ [positional F a]))" by simp
  have "mloop F ((a # pre) @ rest) st = mloop F (pre @ rest) ?s1"
    by (simp add: step)
  also have "\<dots> = mloop F rest (?s1(''_'' \<mapsto> VArr ((xs @ [positional F a]) @ map (positional F) pre)))"
    by (rule Cons.IH [where st = ?s1 and xs = "xs @ [positional F a]", OF pp s1])
  finally have c: "mloop F ((a # pre) @ rest) st =
      mloop F rest (?s1(''_'' \<mapsto> VArr ((xs @ [positional F a]) @ map (positional F) pre)))" .
  have e: "?s1(''_'' \<mapsto> VArr ((xs @ [positional F a]) @ map (positional F) pre))
           = st(''_'' \<mapsto> VArr (xs @ map (positional F) (a # pre)))"
    by simp
  show ?case by (simp only: c e)
qed

lemma plainToken_not_sep: "\<forall>a \<in> set args. plainToken a \<Longrightarrow> ''--'' \<notin> set args"
  by (auto simp: plainToken_def)

lemma minimist_no_separator:
  assumes "''--'' \<notin> set args"
  shows "minimist args opts =
           bind (forEach (bools (makeFlags opts)) (initBool (makeFlags opts) (default_opt opts))
                   [''_'' \<mapsto> VArr []])
             (\<lambda>st1. bind (mloop (makeFlags opts) args st1)
                (forEach (obj_entries (default_opt opts)) (fillDefault (makeFlags opts))))"
proof -
  from assms have tw: "takeWhile (\<lambda>a. a \<noteq> ''--'') args = args"
    by (auto simp: takeWhile_eq_all_conv)
  have "\<And>m. bind m Inr = (m :: jserr + argv)"
    by (simp add: bind_def split: sum.splits)
  then have b: "\<And>f st. bind (f st) (forEach [] (\<lambda>k. pushArg (VStr k))) = (f st :: jserr + argv)"
    by (metis forEach.simps(1) bind_def sum.case_eq_if sum.collapse)
  show ?thesis
    unfolding minimist_def Let_def tw using assms
    by (simp add: b cong: if_cong)
qed

lemma wf_init:
  assumes wf: "wellFormed options"
  shows "\<exists>st1. forEach (bools (toolFlags options))
                  (initBool (toolFlags options) (default_opt (fst (buildOptions options))))
                  [''_'' \<mapsto> VArr []] = Inr st1
           \<and> st1 ''_'' = Some (VArr [])
           \<and> (\<forall>f. f \<notin> fst ` set (aliasWrites options) \<longrightarrow> f \<noteq> ''_'' \<longrightarrow>
                 st1 f = (if f \<in> set (bools (toolFlags options))
                          then Some (VBool (obj_get (default_opt (fst (buildOptions options))) f \<noteq> None))
                          else None))"
proof -
  from init_bools [OF wf subset_refl, of "[''_'' \<mapsto> VArr []]"] obtain st1 where
    st1: "forEach (bools (toolFlags options))
            (initBool (toolFlags options) (default_opt (fst (buildOptions options))))
            [''_'' \<mapsto> VArr []] = Inr st1"
    and fr: "\<forall>f. f \<notin> fst ` set (aliasWrites options) \<longrightarrow>
               st1 f = (if f \<in> set (bools (toolFlags options))
                        then Some (VBool (obj_get (default_opt (fst (buildOptions options))) f \<noteq> None))
                        else [''_'' \<mapsto> VArr []] f)"
    by blast
  have u1: "''_'' \<notin> fst ` set (aliasWrites options)"
    using wf_alias_plain [OF wf] by force
  have u2: "''_'' \<notin> set (bools (toolFlags options))"
    using wf_key_plain [OF wf] by (auto simp: bools_toolFlags)
  from fr u1 u2 have "st1 ''_'' = Some (VArr [])" by simp
  moreover from fr have "\<forall>f. f \<notin> fst ` set (aliasWrites options) \<longrightarrow> f \<noteq> ''_'' \<longrightarrow>
                 st1 f = (if f \<in> set (bools (toolFlags options))
                          then Some (VBool (obj_get (default_opt (fst (buildOptions options))) f \<noteq> None))
                          else None)"
    by simp
  ultimately show ?thesis using st1 by blast
qed

lemma wf_fill:
  assumes wf: "wellFormed options"
  shows "\<exists>st'. forEach (obj_entries (default_opt (fst (buildOptions options))))
                  (fillDefault (toolFlags options)) st = Inr st'
           \<and> (\<forall>f. f \<notin> fst ` set (aliasWrites options) \<longrightarrow>
                 st' f = (if st f = None then obj_get (default_opt (fst (buildOptions options))) f
                          else st f))"
proof -
  let ?D = "default_opt (fst (buildOptions options))"
  have es: "\<forall>e \<in> set (obj_entries ?D). obj_get ?D (fst e) = Some (snd e)"
    using set_obj_entries [of _ _ ?D] by force
  from fill_defaults [OF wf es, of st] obtain st' where
    st': "forEach (obj_entries ?D) (fillDefault (toolFlags options)) st = Inr st'"
    and fr: "\<forall>f. f \<notin> fst ` set (aliasWrites options) \<longrightarrow>
               st' f = (if st f = None \<and> f \<in> fst ` set (obj_entries ?D) then obj_get ?D f else st f)"
    by blast
  have "f \<in> fst ` set (obj_entries ?D) \<longleftrightarrow> obj_get ?D f \<noteq> None" for f
    using set_obj_entries [of f _ ?D] by force
  with fr have "\<forall>f. f \<notin> fst ` set (aliasWrites options) \<longrightarrow>
                 st' f = (if st f = None then obj_get ?D f else st f)"
    by auto
  with st' show ?thesis by blast
qed

lemma minimist_plain:
  assumes wf: "wellFormed options" and pl: "\<forall>a \<in> set args. plainToken a"
  shows "\<exists>r. minimist args (fst (buildOptions options)) = Inr r
           \<and> r ''_'' = Some (VArr (map (positional (toolFlags options)) args))
           \<and> (\<forall>f. f \<notin> fst ` set (aliasWrites options) \<longrightarrow> f \<noteq> ''_'' \<longrightarrow>
                 r f = restingValue options f)"
proof -
  let ?F = "toolFlags options" and ?D = "default_opt (fst (buildOptions options))"
  from wf_init [OF wf] obtain st1 where
    i1: "forEach (bools ?F) (initBool ?F ?D) [''_'' \<mapsto> VArr []] = Inr st1"
    and i2: "st1 ''_'' = Some (VArr [])"
    and i3: "\<forall>f. f \<notin> fst ` set (aliasWrites options) \<longrightarrow> f \<noteq> ''_'' \<longrightarrow>
                 st1 f = (if f \<in> set (bools ?F) then Some (VBool (obj_get ?D f \<noteq> None)) else None)"
    by blast
  let ?st2 = "st1(''_'' \<mapsto> VArr (map (positional ?F) args))"
  have l: "mloop ?F args st1 = Inr ?st2"
    using mloop_plain [where pre = args and st = st1 and xs = "[]" and F = ?F and rest = "[]", OF pl i2]
    by simp
  from wf_fill [OF wf, of ?st2] obtain r where
    d1: "forEach (obj_entries ?D) (fillDefault ?F) ?st2 = Inr r"
    and d2: "\<forall>f. f \<notin> fst ` set (aliasWrites options) \<longrightarrow>
                 r f = (if ?st2 f = None then obj_get ?D f else ?st2 f)"
    by blast
  have u1: "''_'' \<notin> fst ` set (aliasWrites options)"
    using wf_alias_plain [OF wf] by force
  have m: "minimist args (fst (buildOptions options)) = Inr r"
    unfolding minimist_no_separator [OF plainToken_not_sep [OF pl]]
    using i1 l d1 by (simp add: toolFlags_def)
  have a: "r ''_'' = Some (VArr (map (positional ?F) args))"
    using d2 u1 by simp
  have b: "\<forall>f. f \<notin> fst ` set (aliasWrites options) \<longrightarrow> f \<noteq> ''_'' \<longrightarrow>
                 r f = restingValue options f"
    using d2 i3 by (simp add: restingValue_def)
  from m a b show ?thesis by blast
qed


subsection \<open>The tests on an argument, for a key of word characters\<close>

lemma name_char_facts:
  assumes "is_name_char c"
  shows "c \<noteq> CHR ''=''" "\<not> is_line_end c" "c \<noteq> CHR ''.''" "c \<noteq> CHR '' ''"
  using assms
  by (auto simp: is_name_char_def is_word_char_def is_letter_def is_lower_def is_upper_def
        is_digit_def is_line_end_def)


lemma takeWhile_all: "\<forall>c \<in> set k. P c \<Longrightarrow> takeWhile P k = k"
  by (simp add: takeWhile_eq_all_conv)

lemma starts_with_append [simp]: "starts_with p (p @ s)"
  by (simp add: starts_with_def)







subsection \<open>What parseTemplates leaves alone\<close>

lemma str_includes_char: "str_includes [c] s \<longleftrightarrow> c \<in> set s"
  by (induction s) (auto simp: starts_with_def)








subsection \<open>The stages of minimistPrettyParse\<close>

lemma parse_split:
  "minimistPrettyParse argv options (Some cs)
     = bind (minimistPrettyParse argv options None) (parseTemplates cs)"
  by (simp add: minimistPrettyParse_def Let_def bind_def split: sum.splits)

lemma parse_flags:
  assumes "minimist argv (fst (buildOptions options)) = Inr r0"
  shows "minimistPrettyParse argv (Some options) None
           = Inr (normalizeOptions (snd (buildOptions options)) r0)"
  using assms by (simp add: minimistPrettyParse_def)

lemma any_keys: "set (snd (buildOptions options)) \<subseteq> fst ` set options"
  by (auto simp: buildOptions_any)

lemma coerce_bool [simp]: "coerce (VBool b) = VBool b"
  by (simp add: coerce_def)



subsection \<open>The default of a negated flag\<close>







lemma tool_wellFormed: "wellFormed tool_options"
  by code_simp


subsection \<open>A flag that takes a value\<close>













subsection \<open>The default that a key with \<^verbatim>\<open>no-\<close> installs\<close>

lemma obj_get_sets_keep:
  assumes "obj_get ob x = Some w" and "\<forall>e \<in> set ws. fst e = x \<longrightarrow> snd e = w"
  shows "obj_get (obj_sets ws ob) x = Some w"
proof (cases "map_of (rev ws) x")
  case None
  with assms(1) show ?thesis by (simp add: obj_get_sets)
next
  case (Some w')
  then have "(x, w') \<in> set ws" using map_of_SomeD by fastforce
  with assms(2) have "w' = w" by force
  with Some show ?thesis by (simp add: obj_get_sets)
qed

lemma own_negated_write:
  assumes "str_includes ''no-'' k"
  shows "obj_get (obj_sets (defaultWritesOf (k, v)) ob) (replace_first ''no-'' k) = Some (VBool True)"
  using assms
  by (simp add: defaultWritesOf_def obj_get_set split: option.splits)

lemma later_writes:
  assumes "\<forall>e \<in> set after. fst e = x \<longrightarrow> truthyDefault (snd e) = None"
  shows "\<forall>w \<in> set (defaultWrites after). fst w = x \<longrightarrow> snd w = VBool True"
  using assms
  by (auto simp: defaultWrites_def defaultWritesOf_def split: option.splits if_splits)

text \<open>
  C10. When the options are built, an option key that contains \<^verbatim>\<open>no-\<close> anywhere gives
  the key without its first \<^verbatim>\<open>no-\<close> the default \<^verbatim>\<open>true\<close>; this default stays unless an
  option after it in the schema has that shorter key and a default of its own. (The key
  \<^verbatim>\<open>__proto__\<close>, to which an assignment creates no property, is left out.)
\<close>

theorem negation_default_by_substring:
  assumes "str_includes ''no-'' k"
    and "\<forall>e \<in> set after. fst e = replace_first ''no-'' k \<longrightarrow> truthyDefault (snd e) = None"
    and "replace_first ''no-'' k \<noteq> ''__proto__''"
  shows "obj_get (default_opt (fst (buildOptions (before @ (k, v) # after))))
           (replace_first ''no-'' k) = Some (VBool True)"
proof -
  have "defaultWrites (before @ (k, v) # after)
          = defaultWrites before @ defaultWritesOf (k, v) @ defaultWrites after"
    by (simp add: defaultWrites_def)
  then have "default_opt (fst (buildOptions (before @ (k, v) # after)))
          = obj_sets (defaultWrites after)
              (obj_sets (defaultWritesOf (k, v)) (obj_sets (defaultWrites before) []))"
    by (simp add: buildOptions_default)
  then show ?thesis
    using obj_get_sets_keep [OF own_negated_write [OF assms(1)] later_writes [OF assms(2)]]
    by simp
qed

theorem negation_default_by_substring_witness:
  "str_includes ''no-'' ''mono-sound''
   \<and> replace_first ''no-'' ''mono-sound'' \<noteq> ''__proto__''
   \<and> obj_get (default_opt (fst (buildOptions
         [(''vlc'', opt None None None), (''mono-sound'', opt None None None),
          (''quiet'', opt (Some ''q'') None None)]))) ''mosound'' = Some (VBool True)"
proof -
  have h1: "str_includes ''no-'' ''mono-sound''" by code_simp
  have h2: "\<forall>e \<in> set [(''quiet'', opt (Some ''q'') None None)].
         fst e = replace_first ''no-'' ''mono-sound'' \<longrightarrow> truthyDefault (snd e) = None"
    by code_simp
  have h3: "replace_first ''no-'' ''mono-sound'' \<noteq> ''__proto__''" by code_simp
  have e: "replace_first ''no-'' ''mono-sound'' = ''mosound''" by code_simp
  have c: "obj_get (default_opt (fst (buildOptions
         ([(''vlc'', opt None None None)] @ (''mono-sound'', opt None None None)
          # [(''quiet'', opt (Some ''q'') None None)])))) (replace_first ''no-'' ''mono-sound'')
        = Some (VBool True)"
    by (rule negation_default_by_substring [OF h1 h2 h3])
  have c': "obj_get (default_opt (fst (buildOptions
         [(''vlc'', opt None None None), (''mono-sound'', opt None None None),
          (''quiet'', opt (Some ''q'') None None)]))) ''mosound'' = Some (VBool True)"
    using c unfolding e by (simp only: append.simps)
  from h1 h3 c' show ?thesis by blast
qed

subsection \<open>A template of one optional variadic token\<close>

lemma name_char_token: "is_name_char c \<Longrightarrow> is_token_char c"
  by (auto simp: is_name_char_def is_token_char_def)

lemma dot_no_token: "\<not> is_token_char CHR ''.''" "\<not> is_name_char CHR ''.''"
  by (simp_all add: is_token_char_def is_name_char_def is_word_char_def is_letter_def
        is_lower_def is_upper_def is_digit_def)

lemma bracket_no_name: "\<not> is_name_char CHR ''[''"
  by (simp add: is_name_char_def is_word_char_def is_letter_def is_lower_def is_upper_def
        is_digit_def)

lemma str_includes_here: "str_includes p (p @ ys)"
proof (cases "p @ ys")
  case Nil
  then show ?thesis by simp
next
  case (Cons a list)
  have "take (length p) (p @ ys) = p" by simp
  then have "starts_with p (a # list)" unfolding starts_with_def Cons .
  then show ?thesis unfolding Cons by simp
qed

lemma str_includes_append: "str_includes p (xs @ p @ ys)"
  by (induction xs) (simp_all add: str_includes_here)

lemma optional_variadic_token:
  assumes n: "wordKey n"
  shows "argumentMatch (CHR ''['' # n @ ''...]'')"
    and "argumentNameOf (CHR ''['' # n @ ''...]'') = Some n"
    and "isArrayArgument (CHR ''['' # n @ ''...]'')"
    and "\<not> isRequiredArgument (CHR ''['' # n @ ''...]'')"
    and "\<not> str_includes '' '' (CHR ''['' # n @ ''...]'')"
proof -
  from n have ne: "n \<noteq> []" and nc: "\<And>c. c \<in> set n \<Longrightarrow> is_name_char c"
    by (simp_all add: wordKey_def)
  have le: "\<And>c. c \<in> set n \<Longrightarrow> \<not> is_line_end c" using nc name_char_facts(2) by blast
  have tc: "\<And>c. c \<in> set n \<Longrightarrow> is_token_char c" using nc name_char_token by blast
  have tw1: "takeWhile (\<lambda>x. \<not> is_line_end x) (n @ ''...]'') = n @ ''...]''"
    by (rule takeWhile_all) (use le in \<open>auto simp: is_line_end_def\<close>)
  have "CHR '']'' \<in> set (tl (n @ ''...]''))" using ne by (cases n) simp_all
  then have la: "lookahead (CHR '']'') (n @ ''...]'')" by (simp add: lookahead_def tw1)
  have tw2: "takeWhile is_token_char (n @ ''...]'') = n"
    using tc dot_no_token(1) by (simp add: takeWhile_append2)
  have dw2: "dropWhile is_token_char (n @ ''...]'') = ''...]''"
    using tc dot_no_token(1) by (simp add: dropWhile_append2)
  show "argumentMatch (CHR ''['' # n @ ''...]'')"
    using la ne by (simp add: argumentMatch_def tw2 dw2)
  have hn: "is_name_char (hd n)" using ne nc by simp
  have dw3: "dropWhile (\<lambda>c. \<not> is_name_char c) (CHR ''['' # n @ ''...]'') = n @ ''...]''"
    using bracket_no_name hn ne by (cases n) simp_all
  have tw3: "takeWhile is_name_char (n @ ''...]'') = n"
    using nc dot_no_token(2) by (simp add: takeWhile_append2)
  show "argumentNameOf (CHR ''['' # n @ ''...]'') = Some n"
    unfolding argumentNameOf_def dw3 tw3 using ne by (simp add: Let_def)
  have "str_includes ''...'' ((CHR ''['' # n) @ ''...'' @ '']'')" by (rule str_includes_append)
  then show "isArrayArgument (CHR ''['' # n @ ''...]'')" by (simp add: isArrayArgument_def)
  show "\<not> isRequiredArgument (CHR ''['' # n @ ''...]'')" by (simp add: isRequiredArgument_def)
  have "CHR '' '' \<notin> set (CHR ''['' # n @ ''...]'')"
    using nc name_char_facts(4) by auto
  then show "\<not> str_includes '' '' (CHR ''['' # n @ ''...]'')" by (simp only: str_includes_char not_False_eq_True)
qed

lemma loop_optional_variadic:
  assumes n: "wordKey n" and u: "r ''_'' = Some (VArr ys)"
  shows "templateLoop command p 1 0 [CHR ''['' # n @ ''...]''] False r
           = Inr (mirror n (if drop p ys = [] then r else r(n \<mapsto> VArr (drop p ys))))"
proof -
  note t = optional_variadic_token [OF n]
  have g: "js_get r ''_'' = VArr ys" using u by (simp add: js_get_def)
  have b: "bindArgument command n True False True p r
             = Inr (if drop p ys = [] then r else r(n \<mapsto> VArr (drop p ys)))"
    by (simp add: bindArgument_def g)
  show ?thesis
    using t b by simp
qed

lemma parse_named_optional_variadic:
  assumes n: "wordKey n" and u: "r ''_'' = Some (VArr (VStr c # ys))"
    and cmd: "obj_get commands c = Some cv" "template cv = Some (CHR ''['' # n @ ''...]'')"
  shows "parseTemplates commands r = Inr (mirror n (if ys = [] then r else r(n \<mapsto> VArr ys)))"
proof -
  note t = optional_variadic_token [OF n]
  have g: "js_get r ''_'' = VArr (VStr c # ys)" using u by (simp add: js_get_def)
  have k: "c \<in> set (obj_keys commands)"
    using obj_get_Some_key [OF cmd(1)] by (simp add: set_obj_keys)
  have tm: "templateOf commands (CHR ''['' # n @ ''...]'') = Inr [CHR ''['' # n @ ''...]'']"
    using t(5) by (simp add: templateOf_def)
  have lp: "templateLoop c 1 1 0 [CHR ''['' # n @ ''...]''] False r
              = Inr (mirror n (if ys = [] then r else r(n \<mapsto> VArr ys)))"
    using loop_optional_variadic [where r = r and ys = "VStr c # ys" and command = c and p = 1, OF n u]
    by simp
  show ?thesis
    unfolding parseTemplates_def Let_def
    using g k cmd tm lp by (simp add: truthyString_def)
qed

lemma parse_default_optional_variadic:
  assumes n: "wordKey n" and u: "r ''_'' = Some (VArr (tok # rest))"
    and nc: "\<forall>s. tok = VStr s \<longrightarrow> s \<notin> fst ` set commands"
    and cmd: "obj_get commands ''*'' = Some cv" "template cv = Some (CHR ''['' # n @ ''...]'')"
  shows "parseTemplates commands r = Inr (mirror n (r(n \<mapsto> VArr (tok # rest))))"
proof -
  note t = optional_variadic_token [OF n]
  have g: "js_get r ''_'' = VArr (tok # rest)" using u by (simp add: js_get_def)
  have i0: "js_index (VArr (tok # rest)) 0 = tok" by simp
  have d: "(case tok of VStr s \<Rightarrow> s \<notin> set (obj_keys commands) | _ \<Rightarrow> True)"
    using nc by (cases tok) (simp_all add: set_obj_keys)
  then have c: "(case tok of
                   VStr s \<Rightarrow> if (case tok of
                                    VStr s \<Rightarrow> s \<notin> set (obj_keys commands) | _ \<Rightarrow> True)
                              then ''*'' else s | _ \<Rightarrow> ''*'') = ''*''"
    by (cases tok) simp_all
  have tm: "templateOf commands (CHR ''['' # n @ ''...]'') = Inr [CHR ''['' # n @ ''...]'']"
    using t(5) by (simp add: templateOf_def)
  have lp: "templateLoop ''*'' 0 1 0 [CHR ''['' # n @ ''...]''] False r
              = Inr (mirror n (r(n \<mapsto> VArr (tok # rest))))"
    using loop_optional_variadic [where r = r and ys = "tok # rest" and command = "''*''" and p = 0,
        OF n u]
    by simp
  show ?thesis
    unfolding parseTemplates_def Let_def g i0 c
    using d cmd tm lp by (simp add: truthyString_def)
qed

subsection \<open>Positionals and commands\<close>

lemma wf_underscore:
  assumes wf: "wellFormed options"
  shows "''_'' \<notin> set (strings (toolFlags options))" and "''_'' \<notin> set (snd (buildOptions options))"
    and "''_'' \<notin> fst ` set (aliasWrites options)"
proof -
  show "''_'' \<notin> set (strings (toolFlags options))"
  proof
    assume "''_'' \<in> set (strings (toolFlags options))"
    then obtain k v where kv: "(k, v) \<in> set options"
      and c: "''_'' = k \<or> ''_'' \<in> set (aliases_of (toolFlags options) k)"
      unfolding strings_toolFlags by blast
    from c show False
    proof
      assume "''_'' = k"
      with wf_key_plain [OF wf kv] show False by simp
    next
      assume "''_'' \<in> set (aliases_of (toolFlags options) k)"
      from wf_aliases_plain [OF wf this] show False by simp
    qed
  qed
  show "''_'' \<notin> set (snd (buildOptions options))"
  proof
    assume "''_'' \<in> set (snd (buildOptions options))"
    then obtain v where "(''_'', v) \<in> set options" by (auto simp: buildOptions_any)
    from wf_key_plain [OF wf this] show False by simp
  qed
  show "''_'' \<notin> fst ` set (aliasWrites options)"
    using wf_alias_plain [OF wf] by force
qed

lemma positional_string:
  assumes "wellFormed options" and "\<not> isNumber (VStr c)"
  shows "positional (toolFlags options) c = VStr c"
  using assms(2) by (simp add: positional_def)

lemma files_plain: "wordKey ''files''" "\<not> isHyphenated ''files''"
  by code_simp+

text \<open>
  C2, as amended. For a command \<open>c\<close> whose template is the one optional variadic token
  \<^verbatim>\<open>[files...]\<close>, in a well-formed schema with no option named \<^verbatim>\<open>files\<close>: parsing \<open>c\<close>
  followed by positionals binds \<^verbatim>\<open>files\<close> to their ordered sequence, each as the tokenizer
  passes it on (\<open>positional\<close>: a numeric token as a number); parsing \<open>c\<close> alone leaves
  \<^verbatim>\<open>files\<close> unbound.
\<close>

theorem variadic_capture:
  assumes wf: "wellFormed options"
    and nf: "''files'' \<notin> set (map fst options @ map fst (aliasWrites options)
                                @ map fst (defaultWrites options))"
    and c: "plainToken c" "\<not> isNumber (VStr c)"
    and cmd: "obj_get commands c = Some cv" "template cv = Some ''[files...]''"
    and xs: "\<forall>a \<in> set xs. plainToken a"
  shows "\<exists>r. minimistPrettyParse (c # xs) (Some options) (Some commands) = Inr r
           \<and> r ''files'' = (if xs = [] then None
                             else Some (VArr (map (positional (toolFlags options)) xs)))"
proof -
  let ?F = "toolFlags options" and ?anyT = "snd (buildOptions options)"
  from nf have f1: "''files'' \<notin> fst ` set options"
    and f2: "''files'' \<notin> fst ` set (aliasWrites options)"
    and f3: "''files'' \<notin> fst ` set (defaultWrites options)"
    by simp_all
  have fb: "''files'' \<notin> set (bools ?F)"
    using f1 by (force simp: bools_toolFlags)
  have "obj_get (obj_sets (defaultWrites options) []) ''files'' = obj_get ([] :: jsval jsobj) ''files''"
    using f3 by (rule obj_get_sets_none)
  then have "obj_get (default_opt (fst (buildOptions options))) ''files'' = None"
    by (simp add: buildOptions_default obj_get_def)
  with fb have rest: "restingValue options ''files'' = None"
    by (simp add: restingValue_def)
  have pl: "\<forall>a \<in> set (c # xs). plainToken a" using c(1) xs by simp
  from minimist_plain [OF wf pl] f2 rest obtain r0 where
    m0: "minimist (c # xs) (fst (buildOptions options)) = Inr r0"
    and u0: "r0 ''_'' = Some (VArr (map (positional ?F) (c # xs)))"
    and v0: "r0 ''files'' = None"
    by auto
  let ?r1 = "normalizeOptions ?anyT r0"
  have p0: "minimistPrettyParse (c # xs) (Some options) None = Inr ?r1"
    by (rule parse_flags [OF m0])
  have fa: "''files'' \<notin> set ?anyT" using f1 any_keys by blast
  have u1: "?r1 ''_'' = Some (VArr (VStr c # map (positional ?F) xs))"
    using u0 wf_underscore(2) [OF wf] positional_string [OF wf c(2)]
    by (simp add: normalizeOptions_apply)
  have v1: "?r1 ''files'' = None"
    using v0 fa by (simp add: normalizeOptions_apply)
  have t: "template cv = Some (CHR ''['' # ''files'' @ ''...]'')" using cmd(2) by simp
  have pt: "parseTemplates commands ?r1
      = Inr (mirror ''files'' (if map (positional ?F) xs = [] then ?r1
                               else ?r1(''files'' \<mapsto> VArr (map (positional ?F) xs))))"
    by (rule parse_named_optional_variadic
          [where r = ?r1 and c = c and ys = "map (positional ?F) xs", OF files_plain(1) u1 cmd(1) t])
  have "minimistPrettyParse (c # xs) (Some options) (Some commands)
      = Inr (if map (positional ?F) xs = [] then ?r1
             else ?r1(''files'' \<mapsto> VArr (map (positional ?F) xs)))"
    unfolding parse_split p0 using pt files_plain(2) by (simp add: mirror_def)
  then show ?thesis using v1 by auto
qed

theorem variadic_capture_witness:
  "wellFormed tool_options
   \<and> ''files'' \<notin> set (map fst tool_options @ map fst (aliasWrites tool_options)
                         @ map fst (defaultWrites tool_options))
   \<and> plainToken ''cmd'' \<and> \<not> isNumber (VStr ''cmd'')
   \<and> obj_get [(''*'', cmd (Some ''[torrent-ids...]'')), (''cmd'', cmd (Some ''[files...]''))] ''cmd''
        = Some (cmd (Some ''[files...]''))
   \<and> template (cmd (Some ''[files...]'')) = Some ''[files...]''
   \<and> list_all plainToken [''a'', ''b'', ''c'']
   \<and> field (minimistPrettyParse [''cmd'', ''a'', ''b'', ''c''] (Some tool_options)
         (Some [(''*'', cmd (Some ''[torrent-ids...]'')), (''cmd'', cmd (Some ''[files...]''))]))
        ''files'' = Some (VArr [VStr ''a'', VStr ''b'', VStr ''c''])"
proof -
  have h1: "wellFormed tool_options" by (rule tool_wellFormed)
  have h2: "''files'' \<notin> set (map fst tool_options @ map fst (aliasWrites tool_options)
                         @ map fst (defaultWrites tool_options))" by code_simp
  have h3: "plainToken ''cmd''" by code_simp
  have h4: "\<not> isNumber (VStr ''cmd'')" by code_simp
  have h5: "obj_get [(''*'', cmd (Some ''[torrent-ids...]'')), (''cmd'', cmd (Some ''[files...]''))]
             ''cmd'' = Some (cmd (Some ''[files...]''))" by code_simp
  have h6: "template (cmd (Some ''[files...]'')) = Some ''[files...]''" by code_simp
  have h7: "\<forall>a \<in> set [''a'', ''b'', ''c'']. plainToken a" by code_simp
  have e: "map (positional (toolFlags tool_options)) [''a'', ''b'', ''c'']
             = [VStr ''a'', VStr ''b'', VStr ''c'']" by code_simp
  from variadic_capture [OF h1 h2 h3 h4 h5 h6 h7] obtain r where
    "minimistPrettyParse [''cmd'', ''a'', ''b'', ''c''] (Some tool_options)
       (Some [(''*'', cmd (Some ''[torrent-ids...]'')), (''cmd'', cmd (Some ''[files...]''))]) = Inr r"
    and "r ''files'' = Some (VArr (map (positional (toolFlags tool_options)) [''a'', ''b'', ''c'']))"
    by auto
  then have c: "field (minimistPrettyParse [''cmd'', ''a'', ''b'', ''c''] (Some tool_options)
         (Some [(''*'', cmd (Some ''[torrent-ids...]'')), (''cmd'', cmd (Some ''[files...]''))]))
        ''files'' = Some (VArr [VStr ''a'', VStr ''b'', VStr ''c''])"
    unfolding e by (simp add: field_def)
  have h8: "list_all plainToken [''a'', ''b'', ''c'']" by code_simp
  from h1 h2 h3 h4 h5 h6 h8 c show ?thesis by blast
qed

text \<open>
  C2. The claim: with no positionals, \<^verbatim>\<open>files\<close> is bound to the empty sequence. The code:
  the variadic branch assigns only when the slice of the residual list is not empty, so
  \<^verbatim>\<open>files\<close> stays absent; the handler of the default command tells the two cases apart by
  \<^verbatim>\<open>argv.torrentIds ? ... : runHelp()\<close>.
\<close>

theorem variadic_capture_counterexample:
  "thrown (minimistPrettyParse [''cmd''] (Some tool_options)
     (Some [(''*'', cmd (Some ''[torrent-ids...]'')), (''cmd'', cmd (Some ''[files...]''))])) = None
   \<and> field (minimistPrettyParse [''cmd''] (Some tool_options)
     (Some [(''*'', cmd (Some ''[torrent-ids...]'')), (''cmd'', cmd (Some ''[files...]''))]))
       ''files'' \<noteq> Some (VArr [])"
  by code_simp

subsection \<open>The default command\<close>

lemma residual_result:
  assumes "residual argv options = Some ys"
  shows "\<exists>r1. minimistPrettyParse argv options None = Inr r1 \<and> r1 ''_'' = Some (VArr ys)"
  using assms
  by (auto simp: residual_def field_def split: sum.splits option.splits jsval.splits)

text \<open>
  C9. When the first residual positional is no key of the command table, the default
  command \<^verbatim>\<open>*\<close> is resolved and the residual list is bound from its first token on: with
  the default template of one optional variadic token \<open>n\<close> (as \<^verbatim>\<open>[torrent-ids...]\<close> in the
  tool), \<open>n\<close> and its camelCase spelling are bound to the whole residual list.
\<close>

theorem unknown_leading_token:
  assumes res: "residual argv options = Some (tok # rest)"
    and nc: "\<forall>s. tok = VStr s \<longrightarrow> s \<notin> fst ` set commands"
    and cmd: "obj_get commands ''*'' = Some cv" "template cv = Some (''['' @ n @ ''...]'')"
    and n: "wordKey n"
  shows "\<exists>r. minimistPrettyParse argv options (Some commands) = Inr r
           \<and> r n = Some (VArr (tok # rest))
           \<and> (isHyphenated n \<longrightarrow> r (camelCase n) = Some (VArr (tok # rest)))"
proof -
  from residual_result [OF res] obtain r1 where
    p1: "minimistPrettyParse argv options None = Inr r1" and u1: "r1 ''_'' = Some (VArr (tok # rest))"
    by blast
  have t: "template cv = Some (CHR ''['' # n @ ''...]'')" using cmd(2) by simp
  have pt: "parseTemplates commands r1 = Inr (mirror n (r1(n \<mapsto> VArr (tok # rest))))"
    by (rule parse_default_optional_variadic
          [where r = r1 and tok = tok and rest = rest, OF n u1 nc cmd(1) t])
  have p: "minimistPrettyParse argv options (Some commands)
             = Inr (mirror n (r1(n \<mapsto> VArr (tok # rest))))"
    unfolding parse_split p1 using pt by simp
  have a: "mirror n (r1(n \<mapsto> VArr (tok # rest))) n = Some (VArr (tok # rest))"
    by (simp add: mirror_def)
  have b: "isHyphenated n \<longrightarrow>
             mirror n (r1(n \<mapsto> VArr (tok # rest))) (camelCase n) = Some (VArr (tok # rest))"
    by (simp add: mirror_def)
  from p a b show ?thesis by simp
qed

theorem unknown_leading_token_witness:
  "residual [''mymagnet:abc'', ''--out'', ''/tmp''] (Some tool_options)
     = Some (VStr ''mymagnet:abc'' # [])
   \<and> obj_get [(''*'', cmd (Some ''[torrent-ids...]'')),
               (''download'', cmd (Some ''<torrent-ids...>'')),
               (''seed'', cmd (Some ''<inputs...>''))] ''*'' = Some (cmd (Some ''[torrent-ids...]''))
   \<and> template (cmd (Some ''[torrent-ids...]'')) = Some (''['' @ ''torrent-ids'' @ ''...]'')
   \<and> wordKey ''torrent-ids''
   \<and> field (minimistPrettyParse [''mymagnet:abc'', ''--out'', ''/tmp''] (Some tool_options)
         (Some [(''*'', cmd (Some ''[torrent-ids...]'')),
                (''download'', cmd (Some ''<torrent-ids...>'')),
                (''seed'', cmd (Some ''<inputs...>''))])) ''torrent-ids''
        = Some (VArr [VStr ''mymagnet:abc''])"
proof -
  have h1: "residual [''mymagnet:abc'', ''--out'', ''/tmp''] (Some tool_options)
     = Some (VStr ''mymagnet:abc'' # [])" by code_simp
  have h2: "\<forall>s. VStr ''mymagnet:abc'' = VStr s \<longrightarrow>
          s \<notin> fst ` set [(''*'', cmd (Some ''[torrent-ids...]'')),
                          (''download'', cmd (Some ''<torrent-ids...>'')),
                          (''seed'', cmd (Some ''<inputs...>''))]" by simp
  have h3: "obj_get [(''*'', cmd (Some ''[torrent-ids...]'')),
               (''download'', cmd (Some ''<torrent-ids...>'')),
               (''seed'', cmd (Some ''<inputs...>''))] ''*'' = Some (cmd (Some ''[torrent-ids...]''))"
    by code_simp
  have h4: "template (cmd (Some ''[torrent-ids...]'')) = Some (''['' @ ''torrent-ids'' @ ''...]'')"
    by code_simp
  have h5: "wordKey ''torrent-ids''" by code_simp
  from unknown_leading_token [OF h1 h2 h3 h4 h5] obtain r where
    "minimistPrettyParse [''mymagnet:abc'', ''--out'', ''/tmp''] (Some tool_options)
         (Some [(''*'', cmd (Some ''[torrent-ids...]'')),
                (''download'', cmd (Some ''<torrent-ids...>'')),
                (''seed'', cmd (Some ''<inputs...>''))]) = Inr r"
    and "r ''torrent-ids'' = Some (VArr [VStr ''mymagnet:abc''])"
    by blast
  then have c: "field (minimistPrettyParse [''mymagnet:abc'', ''--out'', ''/tmp''] (Some tool_options)
         (Some [(''*'', cmd (Some ''[torrent-ids...]'')),
                (''download'', cmd (Some ''<torrent-ids...>'')),
                (''seed'', cmd (Some ''<inputs...>''))])) ''torrent-ids''
        = Some (VArr [VStr ''mymagnet:abc''])"
    by (simp add: field_def)
  from h1 h3 h4 h5 c show ?thesis by blast
qed

subsection \<open>An option and its one-character alias\<close>














lemma flaglike_not_empty: "isFlagLike n \<Longrightarrow> n \<noteq> []"
  by (auto simp: isFlagLike_def)










end
